theory Spec2Isabelle
  imports Complex_Main
begin

section \<open>JavaScript numbers\<close>

text \<open>
  The numbers of \<^verbatim>\<open>WatermarkApp.jsx\<close> are IEEE doubles. A finite double is kept as the
  rational it denotes, and every arithmetic operation rounds its exact result to the nearest
  double, ties to even: \<open>fl\<close>. The exponent is not bounded, so there is no overflow and
  no gradual underflow; the numbers of this component (dimensions below \<open>2^32\<close>, a density
  from 1 to 5, a size from 10 to 200) stay far inside the normal range. The sign of zero is
  not kept. The infinities and NaN are values of their own, so that a division by zero is
  what JavaScript makes of it.
\<close>

text \<open>\<open>ilog2 n\<close> is the position of the leading bit of a positive \<open>n\<close>.\<close>

fun ilog2 :: "nat \<Rightarrow> nat" where
  "ilog2 n = (if n < 2 then 0 else Suc (ilog2 (n div 2)))"

declare ilog2.simps [simp del]

text \<open>The exponent \<open>e\<close> of a positive \<open>x\<close>: \<open>2^e \<le> x < 2^(e + 1)\<close>.\<close>

definition binade :: "rat \<Rightarrow> int" where
  "binade x =
     (if 1 \<le> x then int (ilog2 (nat \<lfloor>x\<rfloor>))
      else - int (Suc (ilog2 (nat (\<lceil>1 / x\<rceil> - 1)))))"

text \<open>The nearest integer, a tie going to the even one.\<close>

definition round_even :: "rat \<Rightarrow> int" where
  "round_even r =
     (let f = \<lfloor>r\<rfloor>; d = r - of_int f
      in if d < 1 / 2 then f else if 1 / 2 < d then f + 1 else if even f then f else f + 1)"

text \<open>The distance between neighbouring doubles at a positive \<open>x\<close>: 53 significant bits.\<close>

definition ulp :: "rat \<Rightarrow> rat" where
  "ulp x = 2 powi (binade x - 52)"

definition fl :: "rat \<Rightarrow> rat" where
  "fl x =
     (if x = 0 then 0
      else if 0 < x then of_int (round_even (x / ulp x)) * ulp x
      else - (of_int (round_even (- x / ulp (- x))) * ulp (- x)))"

datatype jsnum = Num rat | PosInf | NegInf | NaN

fun js_add :: "jsnum \<Rightarrow> jsnum \<Rightarrow> jsnum" where
  "js_add (Num a) (Num b) = Num (fl (a + b))"
| "js_add (Num a) PosInf = PosInf"
| "js_add (Num a) NegInf = NegInf"
| "js_add PosInf (Num b) = PosInf"
| "js_add PosInf PosInf = PosInf"
| "js_add PosInf NegInf = NaN"
| "js_add NegInf (Num b) = NegInf"
| "js_add NegInf NegInf = NegInf"
| "js_add NegInf PosInf = NaN"
| "js_add NaN y = NaN"
| "js_add x NaN = NaN"

fun js_lt :: "jsnum \<Rightarrow> jsnum \<Rightarrow> bool" where
  "js_lt (Num a) (Num b) = (a < b)"
| "js_lt (Num a) PosInf = True"
| "js_lt (Num a) NegInf = False"
| "js_lt NegInf (Num b) = True"
| "js_lt NegInf PosInf = True"
| "js_lt NegInf NegInf = False"
| "js_lt PosInf y = False"
| "js_lt NaN y = False"
| "js_lt x NaN = False"

fun js_div :: "jsnum \<Rightarrow> jsnum \<Rightarrow> jsnum" where
  "js_div (Num a) (Num b) =
     (if b = 0 then (if a = 0 then NaN else if 0 < a then PosInf else NegInf)
      else Num (fl (a / b)))"
| "js_div (Num a) PosInf = Num 0"
| "js_div (Num a) NegInf = Num 0"
| "js_div PosInf (Num b) = (if b < 0 then NegInf else PosInf)"
| "js_div NegInf (Num b) = (if b < 0 then PosInf else NegInf)"
| "js_div PosInf PosInf = NaN"
| "js_div PosInf NegInf = NaN"
| "js_div NegInf PosInf = NaN"
| "js_div NegInf NegInf = NaN"
| "js_div NaN y = NaN"
| "js_div x NaN = NaN"

fun js_mul :: "jsnum \<Rightarrow> jsnum \<Rightarrow> jsnum" where
  "js_mul (Num a) (Num b) = Num (fl (a * b))"
| "js_mul (Num a) PosInf = (if a = 0 then NaN else if 0 < a then PosInf else NegInf)"
| "js_mul (Num a) NegInf = (if a = 0 then NaN else if 0 < a then NegInf else PosInf)"
| "js_mul PosInf (Num b) = (if b = 0 then NaN else if 0 < b then PosInf else NegInf)"
| "js_mul NegInf (Num b) = (if b = 0 then NaN else if 0 < b then NegInf else PosInf)"
| "js_mul PosInf PosInf = PosInf"
| "js_mul PosInf NegInf = NegInf"
| "js_mul NegInf PosInf = NegInf"
| "js_mul NegInf NegInf = PosInf"
| "js_mul NaN y = NaN"
| "js_mul x NaN = NaN"

text \<open>
  The decimal digits of an integer, as a template literal \<^verbatim>\<open>`${n}`\<close> prints it.
\<close>

definition digit_char :: "nat \<Rightarrow> char" where
  "digit_char d = ''0123456789'' ! d"

fun decimal :: "nat \<Rightarrow> string" where
  "decimal n = (if 10 \<le> n then decimal (n div 10) else []) @ [digit_char (n mod 10)]"

declare decimal.simps [simp del]

definition number_to_string :: "int \<Rightarrow> string" where
  "number_to_string i = (if i < 0 then CHR ''-'' # decimal (nat (- i)) else decimal (nat i))"

text \<open>
  \<^verbatim>\<open>parseInt(s, 16)\<close>: leading white space, an optional sign, an optional \<^verbatim>\<open>0x\<close>, then
  the longest prefix of hexadecimal digits; \<open>None\<close> is NaN.
\<close>

definition hex_digit :: "char \<Rightarrow> nat option" where
  "hex_digit c =
     (let n = (of_char c :: nat)
      in if 48 \<le> n \<and> n \<le> 57 then Some (n - 48)
         else if 97 \<le> n \<and> n \<le> 102 then Some (n - 87)
         else if 65 \<le> n \<and> n \<le> 70 then Some (n - 55)
         else None)"

definition js_whitespace :: "char \<Rightarrow> bool" where
  "js_whitespace c = ((of_char c :: nat) \<in> {9, 10, 11, 12, 13, 32, 160})"

definition parseInt16 :: "string \<Rightarrow> int option" where
  "parseInt16 s =
     (let s1 = dropWhile js_whitespace s;
          neg = (case s1 of [] \<Rightarrow> False | c # r \<Rightarrow> c = CHR ''-'');
          s2 = (case s1 of [] \<Rightarrow> [] | c # r \<Rightarrow> if c = CHR ''-'' \<or> c = CHR ''+'' then r else s1);
          s3 = (case s2 of
                  a # b # r \<Rightarrow> if a = CHR ''0'' \<and> (b = CHR ''x'' \<or> b = CHR ''X'') then r else s2
                | _ \<Rightarrow> s2);
          ds = takeWhile (\<lambda>c. hex_digit c \<noteq> None) s3;
          v = int (foldl (\<lambda>acc c. 16 * acc + the (hex_digit c)) 0 ds)
      in if ds = [] then None else Some (if neg then - v else v))"

definition substr :: "string \<Rightarrow> nat \<Rightarrow> nat \<Rightarrow> string" where
  "substr s start len = take len (drop start s)"

section \<open>Images and the 2D canvas\<close>

text \<open>
  An \<^verbatim>\<open>HTMLImageElement\<close> that has loaded. Its width and height, like those of a canvas,
  are \<^verbatim>\<open>unsigned long\<close>: below \<open>2^32\<close>, so they, their negation and their double are
  doubles as they stand.
\<close>

record img =
  img_width :: nat
  img_height :: nat
  img_src :: string

record image_data =
  id_width :: nat
  id_height :: nat
  id_data :: "nat list"

datatype fill_style = CssColor string | Rgba int int int rat

text \<open>
  The part of the drawing state of a 2D context that the component touches. The transform
  is only ever rotated about the origin, so it is kept as the accumulated angle, counted in
  multiples of \<^verbatim>\<open>Math.PI\<close> radians.
\<close>

record draw_state =
  ds_rotation :: rat
  ds_globalAlpha :: rat
  ds_fillStyle :: fill_style
  ds_font :: string

text \<open>
  The bitmap of a canvas is what the browser rasterises from the drawing calls, so the
  canvas keeps the calls themselves, each with the drawing state it was issued under.
\<close>

datatype draw_op =
    DrawImage img jsnum jsnum "(jsnum \<times> jsnum) option" draw_state
  | FillText string jsnum jsnum draw_state
  | PutImageData image_data

record canvas =
  cv_width :: nat
  cv_height :: nat
  cv_ops :: "draw_op list"
  cv_state :: draw_state
  cv_stack :: "draw_state list"

definition default_state :: draw_state where
  "default_state =
     \<lparr>ds_rotation = 0, ds_globalAlpha = 1, ds_fillStyle = CssColor ''#000000'',
      ds_font = ''10px sans-serif''\<rparr>"

text \<open>\<^verbatim>\<open>document.createElement('canvas')\<close>, and the canvas of the component once mounted.\<close>

definition new_canvas :: canvas where
  "new_canvas =
     \<lparr>cv_width = 300, cv_height = 150, cv_ops = [], cv_state = default_state, cv_stack = []\<rparr>"

text \<open>Assigning a dimension clears the bitmap and resets the context.\<close>

definition set_width :: "nat \<Rightarrow> canvas \<Rightarrow> canvas" where
  "set_width w c = c\<lparr>cv_width := w, cv_ops := [], cv_state := default_state, cv_stack := []\<rparr>"

definition set_height :: "nat \<Rightarrow> canvas \<Rightarrow> canvas" where
  "set_height h c = c\<lparr>cv_height := h, cv_ops := [], cv_state := default_state, cv_stack := []\<rparr>"

definition ctx_drawImage :: "img \<Rightarrow> jsnum \<Rightarrow> jsnum \<Rightarrow> (jsnum \<times> jsnum) option \<Rightarrow> canvas \<Rightarrow> canvas" where
  "ctx_drawImage im x y dims c = c\<lparr>cv_ops := cv_ops c @ [DrawImage im x y dims (cv_state c)]\<rparr>"

definition ctx_fillText :: "string \<Rightarrow> jsnum \<Rightarrow> jsnum \<Rightarrow> canvas \<Rightarrow> canvas" where
  "ctx_fillText t x y c = c\<lparr>cv_ops := cv_ops c @ [FillText t x y (cv_state c)]\<rparr>"

definition ctx_putImageData :: "image_data \<Rightarrow> canvas \<Rightarrow> canvas" where
  "ctx_putImageData d c = c\<lparr>cv_ops := cv_ops c @ [PutImageData d]\<rparr>"

definition ctx_save :: "canvas \<Rightarrow> canvas" where
  "ctx_save c = c\<lparr>cv_stack := cv_state c # cv_stack c\<rparr>"

definition ctx_restore :: "canvas \<Rightarrow> canvas" where
  "ctx_restore c =
     (case cv_stack c of [] \<Rightarrow> c | d # ds \<Rightarrow> c\<lparr>cv_state := d, cv_stack := ds\<rparr>)"

definition ctx_rotate :: "rat \<Rightarrow> canvas \<Rightarrow> canvas" where
  "ctx_rotate r c = c\<lparr>cv_state := (cv_state c)\<lparr>ds_rotation := ds_rotation (cv_state c) + r\<rparr>\<rparr>"

text \<open>A value of \<^verbatim>\<open>globalAlpha\<close> outside \<open>[0, 1]\<close> is ignored.\<close>

definition set_globalAlpha :: "rat \<Rightarrow> canvas \<Rightarrow> canvas" where
  "set_globalAlpha a c =
     (if 0 \<le> a \<and> a \<le> 1 then c\<lparr>cv_state := (cv_state c)\<lparr>ds_globalAlpha := a\<rparr>\<rparr> else c)"

definition set_font :: "string \<Rightarrow> canvas \<Rightarrow> canvas" where
  "set_font f c = c\<lparr>cv_state := (cv_state c)\<lparr>ds_font := f\<rparr>\<rparr>"

text \<open>
  \<^verbatim>\<open>ctx.fillStyle = `rgba(${r}, ${g}, ${b}, ${opacity})`\<close>: with a NaN among the
  channels the string is no colour and the assignment is ignored.
\<close>

definition set_fillStyle_rgba :: "int option \<Rightarrow> int option \<Rightarrow> int option \<Rightarrow> rat \<Rightarrow> canvas \<Rightarrow> canvas" where
  "set_fillStyle_rgba r g b a c =
     (case (r, g, b) of
        (Some r', Some g', Some b') \<Rightarrow>
          c\<lparr>cv_state := (cv_state c)\<lparr>ds_fillStyle := Rgba r' g' b' a\<rparr>\<rparr>
      | _ \<Rightarrow> c)"

section \<open>The browser and the steganography library\<close>

text \<open>
  What the component calls and this repository does not define: the encoder of the
  canvas bitmap (\<^verbatim>\<open>canvas.toDataURL\<close>), the decoder behind \<^verbatim>\<open>img.src = url\<close>
  (\<open>None\<close>: \<^verbatim>\<open>onload\<close> never fires), \<^verbatim>\<open>ctx.getImageData\<close> and the \<^verbatim>\<open>encode\<close> of
  \<^verbatim>\<open>ts-steganography\<close> (\<open>Inl\<close>: the call throws), and the clock.
\<close>

datatype js_value = ImageDataVal image_data | OtherVal string

record browser =
  toDataURL :: "canvas \<Rightarrow> string"
  loadImage :: "string \<Rightarrow> img option"
  getImageData :: "canvas \<Rightarrow> string + image_data"
  encode :: "string \<Rightarrow> image_data \<Rightarrow> string + js_value"
  currentYear :: nat
  dateNow :: nat

section \<open>Component state\<close>

text \<open>
  The \<^verbatim>\<open>useState\<close> variables that the effect and the export read or write, and the
  canvas behind \<^verbatim>\<open>canvasRef.current\<close>. The field \<open>image_s\<close> is the variable
  \<^verbatim>\<open>image\<close> of the source.
\<close>

record app_state =
  signature :: string
  signatureImage :: "img option"
  image_s :: "img option"
  watermarkedImage :: "string option"
  opacity :: rat
  angle :: int
  density :: int
  fontSize :: int
  signatureSize :: int
  textColor :: string
  isProcessing :: bool
  showCaptcha :: bool
  canvasRef :: "canvas option"

text \<open>The \<^verbatim>\<open>useState\<close> defaults, with the hidden canvas mounted.\<close>

definition initial_state :: app_state where
  "initial_state =
     \<lparr>signature = [], signatureImage = None, image_s = None, watermarkedImage = None,
      opacity = 1 / 2, angle = 45, density = 3, fontSize = 20, signatureSize = 100,
      textColor = ''#000000'', isProcessing = False, showCaptcha = False,
      canvasRef = Some new_canvas\<rparr>"

section \<open>The compositing effect\<close>

text \<open>
  \<^verbatim>\<open>for (let v = start; v < bound; v += step) body\<close>. The bound is read from the state
  at every test, as the source reads \<^verbatim>\<open>canvas.height * 2\<close>, and \<^verbatim>\<open>v += step\<close> is the
  rounded sum of doubles. A loop that never leaves is \<open>None\<close>.
\<close>

partial_function (option) for_loop ::
  "jsnum \<Rightarrow> ('s \<Rightarrow> jsnum) \<Rightarrow> jsnum \<Rightarrow> (jsnum \<Rightarrow> 's \<Rightarrow> 's option) \<Rightarrow> 's \<Rightarrow> 's option" where
  "for_loop v bound stp body s =
     (if js_lt v (bound s)
      then Option.bind (body v s) (for_loop (js_add v stp) bound stp body)
      else Some s)"

text \<open>\<^verbatim>\<open>Math.max(canvas.width, canvas.height) / density\<close>\<close>

definition spacing_of :: "nat \<Rightarrow> nat \<Rightarrow> int \<Rightarrow> jsnum" where
  "spacing_of width height d = js_div (Num (of_nat (max width height))) (Num (of_int d))"

text \<open>
  The bounds of the loops, \<^verbatim>\<open>-canvas.height\<close> and \<^verbatim>\<open>canvas.height * 2\<close>: the dimensions
  of a canvas are integers below \<open>2^32\<close>, so these are doubles as they stand.
\<close>

definition neg_height :: "canvas \<Rightarrow> jsnum" where
  "neg_height c = Num (- of_nat (cv_height c))"

definition neg_width :: "canvas \<Rightarrow> jsnum" where
  "neg_width c = Num (- of_nat (cv_width c))"

definition height_times_2 :: "canvas \<Rightarrow> jsnum" where
  "height_times_2 c = Num (of_nat (cv_height c) * 2)"

definition width_times_2 :: "canvas \<Rightarrow> jsnum" where
  "width_times_2 c = Num (of_nat (cv_width c) * 2)"

text \<open>Lines 306 to 310: the text tiles.\<close>

definition draw_text_tiles :: "string \<Rightarrow> jsnum \<Rightarrow> canvas \<Rightarrow> canvas option" where
  "draw_text_tiles sig spacing c =
     for_loop (neg_height c) height_times_2 spacing
       (\<lambda>y c1. for_loop (neg_width c1) width_times_2 spacing
                  (\<lambda>x c2. Some (ctx_fillText sig x y c2)) c1) c"

text \<open>Lines 316 to 326: the size of a raster tile, and the raster tiles.\<close>

definition tile_width :: "nat \<Rightarrow> int \<Rightarrow> jsnum" where
  "tile_width width sz = js_div (js_mul (Num (of_nat width)) (Num (of_int sz))) (Num 100)"

definition tile_ratio :: "img \<Rightarrow> jsnum" where
  "tile_ratio si = js_div (Num (of_nat (img_width si))) (Num (of_nat (img_height si)))"

definition tile_height :: "nat \<Rightarrow> int \<Rightarrow> img \<Rightarrow> jsnum" where
  "tile_height width sz si = js_div (tile_width width sz) (tile_ratio si)"

definition draw_image_tiles :: "img \<Rightarrow> int \<Rightarrow> jsnum \<Rightarrow> canvas \<Rightarrow> canvas option" where
  "draw_image_tiles si sz spacing c =
     (let width = tile_width (cv_width c) sz; height = tile_height (cv_width c) sz si
      in for_loop (neg_height c) height_times_2 spacing
           (\<lambda>y c1. for_loop (neg_width c1) width_times_2 spacing
                      (\<lambda>x c2. Some (ctx_drawImage si x y (Some (width, height)) c2)) c1) c)"

text \<open>Lines 273 to 330: the body of the timer callback, on the canvas.\<close>

definition render_watermark :: "app_state \<Rightarrow> img \<Rightarrow> canvas \<Rightarrow> canvas option" where
  "render_watermark s im cv =
     (let c1 = set_height (img_height im) (set_width (img_width im) cv);
          c2 = ctx_drawImage im (Num 0) (Num 0) None c1;
          spacing = spacing_of (cv_width c2) (cv_height c2) (density s);
          c3 = ctx_save c2;
          c4 = ctx_rotate (of_int (angle s) / 180) c3;
          c5 = set_globalAlpha (opacity s) c4
      in Option.bind
           (if signature s \<noteq> []
            then draw_text_tiles (signature s) spacing
                   (set_fillStyle_rgba
                      (parseInt16 (substr (textColor s) 1 2))
                      (parseInt16 (substr (textColor s) 3 2))
                      (parseInt16 (substr (textColor s) 5 2))
                      (opacity s)
                      (set_font (number_to_string (fontSize s) @ ''px Arial'') c5))
            else Some c5)
           (\<lambda>c6. Option.bind
              (case signatureImage s of
                 Some si \<Rightarrow> draw_image_tiles si (signatureSize s) spacing c6
               | None \<Rightarrow> Some c6)
              (\<lambda>c7. Some (ctx_restore c7))))"

text \<open>
  Lines 266 to 336. The two guards return without touching anything; otherwise the
  callback draws and stores \<^verbatim>\<open>canvas.toDataURL()\<close>. This is one run of the effect
  together with its own callback, with nothing in between; the 100 ms between the two, and
  what other events do in them, are in \<open>timed_step\<close> below.
\<close>

definition watermark_effect :: "browser \<Rightarrow> app_state \<Rightarrow> app_state option" where
  "watermark_effect env s =
     (case image_s s of
        None \<Rightarrow> Some s
      | Some im \<Rightarrow>
          (case canvasRef s of
             None \<Rightarrow> Some s
           | Some cv \<Rightarrow>
               if signature s = [] \<and> signatureImage s = None then Some s
               else Option.bind (render_watermark s im cv)
                      (\<lambda>cv'. Some (s\<lparr>canvasRef := Some cv',
                                      watermarkedImage := Some (toDataURL env cv'),
                                      isProcessing := False\<rparr>))))"

section \<open>Event handlers\<close>

text \<open>The handlers of the inputs, each with the value it sets.\<close>

datatype event =
    SetSignature string
  | SetSignatureImage img
  | RemoveSignatureImage
  | SetImage img
  | SetOpacity rat
  | SetAngle int
  | SetDensity int
  | SetSize int
  | SetTextColor string
  | ResetAll

fun handle :: "event \<Rightarrow> app_state \<Rightarrow> app_state" where
  "handle (SetSignature t) s = s\<lparr>signature := t\<rparr>"
| "handle (SetSignatureImage si) s = s\<lparr>signatureImage := Some si\<rparr>"
| "handle RemoveSignatureImage s = s\<lparr>signatureImage := None\<rparr>"
| "handle (SetImage im) s = s\<lparr>image_s := Some im\<rparr>"
| "handle (SetOpacity v) s = s\<lparr>opacity := v\<rparr>"
| "handle (SetAngle v) s = s\<lparr>angle := v\<rparr>"
| "handle (SetDensity v) s = s\<lparr>density := v\<rparr>"
| "handle (SetSize v) s =
     (if signatureImage s \<noteq> None then s\<lparr>signatureSize := v\<rparr> else s\<lparr>fontSize := v\<rparr>)"
| "handle (SetTextColor v) s = s\<lparr>textColor := v\<rparr>"
| "handle ResetAll s =
     s\<lparr>signature := [], signatureImage := None, image_s := None, watermarkedImage := None,
       opacity := 1 / 2, angle := 45, density := 3, fontSize := 20, signatureSize := 100,
       textColor := ''#000000''\<rparr>"

section \<open>Events and timers\<close>

text \<open>
  After a handler has changed the state, React runs the effect again if one of its nine
  dependencies has changed. The effect does not draw: past its guards it sets the spinner
  and hands the callback to \<^verbatim>\<open>setTimeout\<close>, 100 ms ahead, and nothing ever cancels a
  callback. A pending callback is kept as the state whose values it has closed over.
\<close>

record timed_state =
  ui :: app_state
  pending :: "app_state list"

datatype timed_event = User event | Timer

definition deps_changed :: "app_state \<Rightarrow> app_state \<Rightarrow> bool" where
  "deps_changed s s' \<longleftrightarrow>
     image_s s \<noteq> image_s s' \<or> signature s \<noteq> signature s'
     \<or> signatureImage s \<noteq> signatureImage s' \<or> opacity s \<noteq> opacity s'
     \<or> angle s \<noteq> angle s' \<or> density s \<noteq> density s' \<or> fontSize s \<noteq> fontSize s'
     \<or> textColor s \<noteq> textColor s' \<or> signatureSize s \<noteq> signatureSize s'"

text \<open>
  An upload makes a new image object, which React takes for a change of the dependency even
  when the picture is the one that was there; the other values are compared as they are.
\<close>

fun fresh_object :: "event \<Rightarrow> bool" where
  "fresh_object (SetImage im) = True"
| "fresh_object (SetSignatureImage si) = True"
| "fresh_object e = False"

text \<open>The guards of lines 267 and 268.\<close>

definition effect_scheduled :: "app_state \<Rightarrow> bool" where
  "effect_scheduled s \<longleftrightarrow>
     image_s s \<noteq> None \<and> canvasRef s \<noteq> None
     \<and> \<not> (signature s = [] \<and> signatureImage s = None)"

text \<open>
  The callback, when its timer fires (lines 273 to 334). It has no guard of its own: it
  draws the values it has closed over on the canvas that \<^verbatim>\<open>canvasRef.current\<close> is then,
  and its setters write to the state that is current then. With no canvas or no image the
  first property access throws a \<^verbatim>\<open>TypeError\<close>, which ends the callback before it has
  changed anything.
\<close>

definition timer_callback :: "browser \<Rightarrow> app_state \<Rightarrow> app_state \<Rightarrow> app_state option" where
  "timer_callback env captured current =
     (case canvasRef current of
        None \<Rightarrow> Some current
      | Some cv \<Rightarrow>
          (case image_s captured of
             None \<Rightarrow> Some current
           | Some im \<Rightarrow>
               Option.bind (render_watermark captured im cv)
                 (\<lambda>cv'. Some (current\<lparr>canvasRef := Some cv',
                                      watermarkedImage := Some (toDataURL env cv'),
                                      isProcessing := False\<rparr>))))"

text \<open>
  One turn of the event loop: a user event with the effect that follows it, or the oldest
  pending timer. Timers of equal delay fire in the order they were set.
\<close>

definition timed_step :: "browser \<Rightarrow> timed_event \<Rightarrow> timed_state \<Rightarrow> timed_state option" where
  "timed_step env ev ts =
     (case ev of
        User e \<Rightarrow>
          (let s' = handle e (ui ts)
           in if (fresh_object e \<or> deps_changed (ui ts) s') \<and> effect_scheduled s'
              then Some \<lparr>ui = s'\<lparr>isProcessing := True\<rparr>, pending = pending ts @ [s']\<rparr>
              else Some \<lparr>ui = s', pending = pending ts\<rparr>)
      | Timer \<Rightarrow>
          (case pending ts of
             [] \<Rightarrow> Some ts
           | captured # rest \<Rightarrow>
               map_option (\<lambda>u. \<lparr>ui = u, pending = rest\<rparr>) (timer_callback env captured (ui ts))))"

fun timed_run :: "browser \<Rightarrow> timed_event list \<Rightarrow> timed_state \<Rightarrow> timed_state option" where
  "timed_run env [] ts = Some ts"
| "timed_run env (ev # evs) ts = Option.bind (timed_step env ev ts) (timed_run env evs)"

definition stored_result :: "timed_state \<Rightarrow> string option" where
  "stored_result ts = watermarkedImage (ui ts)"

definition inputs_empty :: "timed_state \<Rightarrow> bool" where
  "inputs_empty ts \<longleftrightarrow> signature (ui ts) = [] \<and> signatureImage (ui ts) = None"

definition typed_text :: "timed_state \<Rightarrow> string" where
  "typed_text ts = signature (ui ts)"

definition uploaded_raster :: "timed_state \<Rightarrow> img option" where
  "uploaded_raster ts = signatureImage (ui ts)"

text \<open>The component once mounted: no callback is pending.\<close>

definition mounted :: timed_state where
  "mounted = \<lparr>ui = initial_state, pending = []\<rparr>"

section \<open>Export\<close>

definition hiddenMessage :: "browser \<Rightarrow> string" where
  "hiddenMessage env = ''Copyright '' @ decimal (currentYear env)"

text \<open>The canvas of \<^verbatim>\<open>applySteganography\<close> once the image is drawn on it.\<close>

definition steg_canvas :: "img \<Rightarrow> canvas" where
  "steg_canvas im =
     ctx_drawImage im (Num 0) (Num 0) None
       (set_height (img_height im) (set_width (img_width im) new_canvas))"

text \<open>
  Lines 348 to 378. \<open>None\<close>: the promise never settles, since the image has no
  \<^verbatim>\<open>onerror\<close>. \<^verbatim>\<open>putImageData\<close> throws on a value that is no \<^verbatim>\<open>ImageData\<close>.
\<close>

definition applySteganography :: "browser \<Rightarrow> string \<Rightarrow> string option" where
  "applySteganography env imageUrl =
     (case loadImage env imageUrl of
        None \<Rightarrow> None
      | Some im \<Rightarrow>
          (case getImageData env (steg_canvas im) of
             Inl err \<Rightarrow> Some imageUrl
           | Inr imageData \<Rightarrow>
               (case encode env (hiddenMessage env) imageData of
                  Inl err \<Rightarrow> Some imageUrl
                | Inr (OtherVal v) \<Rightarrow> Some imageUrl
                | Inr (ImageDataVal encoded) \<Rightarrow>
                    Some (toDataURL env (ctx_putImageData encoded (steg_canvas im))))))"

record download =
  dl_href :: string
  dl_name :: string

definition handleDownload :: "app_state \<Rightarrow> app_state" where
  "handleDownload s = (if watermarkedImage s = None then s else s\<lparr>showCaptcha := True\<rparr>)"

text \<open>
  Lines 468 to 485, reached only through \<^verbatim>\<open>handleDownload\<close> and the verification, so
  with a stored result.
\<close>

definition handleVerifiedDownload :: "browser \<Rightarrow> app_state \<Rightarrow> download option" where
  "handleVerifiedDownload env s =
     (case watermarkedImage s of
        None \<Rightarrow> None
      | Some url \<Rightarrow>
          map_option
            (\<lambda>protectedImage.
               \<lparr>dl_href = protectedImage,
                dl_name = ''protected-artwork-'' @ decimal (dateNow env) @ ''.png''\<rparr>)
            (applySteganography env url))"

section \<open>The grid and the composite, in closed form\<close>

text \<open>
  \<open>xs\<close> are the values of a loop variable that starts at \<open>a\<close>, advances by \<open>s\<close> and
  stays below \<open>b\<close>: the first is \<open>a\<close>, each next one is the double sum of its predecessor
  and \<open>s\<close>, all are below \<open>b\<close>, and the one after the last is not.
\<close>

fun is_steps :: "rat \<Rightarrow> rat \<Rightarrow> rat \<Rightarrow> rat list \<Rightarrow> bool" where
  "is_steps a b s [] = (\<not> a < b)"
| "is_steps a b s (x # xs) = (x = a \<and> a < b \<and> is_steps (fl (a + s)) b s xs)"

text \<open>The first \<open>n\<close> of these values at most.\<close>

fun steps_upto :: "nat \<Rightarrow> rat \<Rightarrow> rat \<Rightarrow> rat \<Rightarrow> rat list" where
  "steps_upto 0 a b s = []"
| "steps_upto (Suc n) a b s = (if a < b then a # steps_upto n (fl (a + s)) b s else [])"

text \<open>
  All of them, where every step advances by half of \<open>s\<close> at least, as it does when the
  rounding error is small against \<open>s\<close>: then there are no more than \<open>\<lceil>2 (b - a) / s\<rceil>\<close>.
\<close>

definition grid_points :: "rat \<Rightarrow> rat \<Rightarrow> rat \<Rightarrow> rat list" where
  "grid_points a b s = steps_upto (nat \<lceil>2 * (b - a) / s\<rceil>) a b s"

text \<open>
  The tile positions \<open>(x, y)\<close> on a \<open>w\<close> by \<open>h\<close> canvas, row by row: \<open>y\<close> from \<open>- h\<close> to
  \<open>2 h\<close>, and within a row \<open>x\<close> from \<open>- w\<close> to \<open>2 w\<close>.
\<close>

definition rows_of :: "rat list \<Rightarrow> rat list \<Rightarrow> (rat \<times> rat) list" where
  "rows_of xs ys = concat (map (\<lambda>y. map (\<lambda>x. (x, y)) xs) ys)"

definition tile_grid :: "nat \<Rightarrow> nat \<Rightarrow> rat \<Rightarrow> (rat \<times> rat) list" where
  "tile_grid w h s =
     rows_of (grid_points (- of_nat w) (of_nat w * 2) s)
             (grid_points (- of_nat h) (of_nat h * 2) s)"

text \<open>The drawing state under which the tiles are drawn: rotated, with the opacity.\<close>

definition tile_state :: "app_state \<Rightarrow> draw_state" where
  "tile_state s =
     default_state\<lparr>ds_rotation := of_int (angle s) / 180,
                   ds_globalAlpha := (if 0 \<le> opacity s \<and> opacity s \<le> 1 then opacity s else 1)\<rparr>"

definition text_fill :: "app_state \<Rightarrow> fill_style" where
  "text_fill s =
     (case (parseInt16 (substr (textColor s) 1 2), parseInt16 (substr (textColor s) 3 2),
            parseInt16 (substr (textColor s) 5 2)) of
        (Some r, Some g, Some b) \<Rightarrow> Rgba r g b (opacity s)
      | _ \<Rightarrow> CssColor ''#000000'')"

definition text_state :: "app_state \<Rightarrow> draw_state" where
  "text_state s =
     (tile_state s)\<lparr>ds_fillStyle := text_fill s,
                    ds_font := number_to_string (fontSize s) @ ''px Arial''\<rparr>"

text \<open>\<open>max(width, height) / density\<close> as a double, for a positive density.\<close>

definition spacing_rat :: "nat \<Rightarrow> nat \<Rightarrow> int \<Rightarrow> rat" where
  "spacing_rat w h d = fl (of_nat (max w h) / of_int d)"

text \<open>What the compositor is to have drawn: the base image, the text tiles, the raster tiles.\<close>

definition base_op :: "img \<Rightarrow> draw_op" where
  "base_op im = DrawImage im (Num 0) (Num 0) None default_state"

definition text_tiles :: "app_state \<Rightarrow> img \<Rightarrow> draw_op list" where
  "text_tiles s im =
     (if signature s = [] then []
      else map (\<lambda>(x, y). FillText (signature s) (Num x) (Num y) (text_state s))
             (tile_grid (img_width im) (img_height im)
                (spacing_rat (img_width im) (img_height im) (density s))))"

definition raster_tiles :: "app_state \<Rightarrow> img \<Rightarrow> draw_op list" where
  "raster_tiles s im =
     (case signatureImage s of
        None \<Rightarrow> []
      | Some si \<Rightarrow>
          map (\<lambda>(x, y). DrawImage si (Num x) (Num y)
                 (Some (tile_width (img_width im) (signatureSize s),
                        tile_height (img_width im) (signatureSize s) si))
                 (if signature s = [] then tile_state s else text_state s))
            (tile_grid (img_width im) (img_height im)
               (spacing_rat (img_width im) (img_height im) (density s))))"

definition composite :: "app_state \<Rightarrow> img \<Rightarrow> canvas" where
  "composite s im =
     \<lparr>cv_width = img_width im, cv_height = img_height im,
      cv_ops = base_op im # text_tiles s im @ raster_tiles s im,
      cv_state = default_state, cv_stack = []\<rparr>"

text \<open>Where a drawing call puts its tile, in the coordinates of the rotated context.\<close>

fun op_position :: "draw_op \<Rightarrow> (jsnum \<times> jsnum) option" where
  "op_position (DrawImage im x y dims st) = Some (x, y)"
| "op_position (FillText t x y st) = Some (x, y)"
| "op_position (PutImageData d) = None"

text \<open>The size a drawing call gives its tile, for the calls that give one.\<close>

fun tile_size :: "draw_op \<Rightarrow> (jsnum \<times> jsnum) option" where
  "tile_size (DrawImage im x y dims st) = dims"
| "tile_size (FillText t x y st) = None"
| "tile_size (PutImageData d) = None"

section \<open>Sample data\<close>

definition sample_base :: img where
  "sample_base = \<lparr>img_width = 2, img_height = 1, img_src = ''data:image/png;base64,base''\<rparr>"

definition sample_signature :: img where
  "sample_signature = \<lparr>img_width = 200, img_height = 100, img_src = ''data:image/png;base64,sig''\<rparr>"

text \<open>
  A browser whose steganography encoder always throws. Its \<^verbatim>\<open>toDataURL\<close> spells out
  the dimensions and what each drawing call draws.
\<close>

fun op_label :: "draw_op \<Rightarrow> string" where
  "op_label (DrawImage im x y dims st) = ''/image:'' @ img_src im"
| "op_label (FillText t x y st) = ''/text:'' @ t"
| "op_label (PutImageData d) = ''/pixels''"

definition failing_encoder_browser :: browser where
  "failing_encoder_browser =
     \<lparr>toDataURL = (\<lambda>c. ''data:image/png;'' @ decimal (cv_width c) @ ''x''
          @ decimal (cv_height c) @ concat (map op_label (cv_ops c))),
      loadImage = (\<lambda>u. Some \<lparr>img_width = 2, img_height = 1, img_src = u\<rparr>),
      getImageData = (\<lambda>c. Inr \<lparr>id_width = cv_width c, id_height = cv_height c, id_data = []\<rparr>),
      encode = (\<lambda>m d. Inl ''Error: message too long''),
      currentYear = 2025,
      dateNow = 1750000000000\<rparr>"

text \<open>A base image is loaded and a text signature typed.\<close>

definition text_sample :: app_state where
  "text_sample = initial_state\<lparr>image_s := Some sample_base, signature := ''Jane Doe''\<rparr>"

text \<open>The same with the density at its least, for a grid of six tiles.\<close>

definition coarse_sample :: app_state where
  "coarse_sample = text_sample\<lparr>density := 1\<rparr>"

text \<open>A base image is loaded and a raster signature uploaded.\<close>

definition raster_sample :: app_state where
  "raster_sample = initial_state\<lparr>image_s := Some sample_base, signatureImage := Some sample_signature\<rparr>"

text \<open>Both a text and a raster signature.\<close>

definition both_sample :: app_state where
  "both_sample =
     initial_state\<lparr>image_s := Some sample_base, signature := ''Jane Doe'',
                   signatureImage := Some sample_signature\<rparr>"

text \<open>A base image is loaded and nothing else has happened.\<close>

definition unsigned_sample :: app_state where
  "unsigned_sample = initial_state\<lparr>image_s := Some sample_base\<rparr>"

text \<open>A result is stored, and the canvas still holds drawing calls of an earlier run.\<close>

definition stale_sample :: app_state where
  "stale_sample =
     text_sample\<lparr>watermarkedImage := Some ''data:image/png;earlier'',
                 canvasRef := Some (ctx_fillText ''old'' (Num 5) (Num 5) (ctx_rotate 1 new_canvas))\<rparr>"

text \<open>A base image is loaded and \<open>a\<close> typed, or \<open>ab\<close>.\<close>

definition typed_a :: app_state where
  "typed_a = initial_state\<lparr>image_s := Some sample_base, signature := ''a''\<rparr>"

definition typed_ab :: app_state where
  "typed_ab = initial_state\<lparr>image_s := Some sample_base, signature := ''ab''\<rparr>"

text \<open>
  A base image is loaded and \<open>a\<close> typed; the timer fires; \<open>b\<close> is typed after it and
  the field cleared at once, before the timer of \<open>ab\<close> has fired.
\<close>

definition typing_then_clearing :: "timed_event list" where
  "typing_then_clearing =
     [User (SetImage sample_base), User (SetSignature ''a''), Timer,
      User (SetSignature ''ab''), User (SetSignature [])]"

text \<open>A result is stored and the callback that has closed over \<open>ab\<close> is still pending.\<close>

definition busy_sample :: timed_state where
  "busy_sample = \<lparr>ui = stale_sample, pending = [typed_ab]\<rparr>"

section \<open>Rounding to a double\<close>

lemma ilog2_bounds: "0 < n \<Longrightarrow> 2 ^ ilog2 n \<le> n \<and> n < 2 ^ Suc (ilog2 n)"
proof (induction n rule: ilog2.induct)
  case (1 n)
  show ?case
  proof (cases "n < 2")
    case True
    with "1.prems" have "n = 1" by simp
    then show ?thesis by (simp add: ilog2.simps)
  next
    case False
    then have "0 < n div 2" by simp
    from "1.IH"[OF False this] have "2 ^ ilog2 (n div 2) \<le> n div 2" "n div 2 < 2 ^ Suc (ilog2 (n div 2))"
      by simp_all
    then have "2 * 2 ^ ilog2 (n div 2) \<le> n" "n < 2 * 2 ^ Suc (ilog2 (n div 2))"
      by linarith+
    then show ?thesis using False by (subst (1 2) ilog2.simps) simp
  qed
qed

lemma ilog2_bounds_rat:
  assumes "0 < n"
  shows "(2::rat) ^ ilog2 n \<le> of_nat n" and "rat_of_nat n + 1 \<le> 2 ^ Suc (ilog2 n)"
proof -
  from ilog2_bounds[OF assms] have "2 ^ ilog2 n \<le> n" "Suc n \<le> 2 ^ Suc (ilog2 n)"
    by simp_all
  then have "rat_of_nat (2 ^ ilog2 n) \<le> rat_of_nat n"
    "rat_of_nat (Suc n) \<le> rat_of_nat (2 ^ Suc (ilog2 n))"
    by (simp_all only: of_nat_le_iff)
  then show "(2::rat) ^ ilog2 n \<le> of_nat n" "rat_of_nat n + 1 \<le> 2 ^ Suc (ilog2 n)"
    by simp_all
qed

lemma binade_bounds:
  assumes "0 < x"
  shows "2 powi binade x \<le> x" and "x < 2 powi (binade x + 1)"
proof -
  have "2 powi binade x \<le> x \<and> x < 2 powi (binade x + 1)"
  proof (cases "1 \<le> x")
    case True
    define n where "n = nat \<lfloor>x\<rfloor>"
    have fl1: "1 \<le> \<lfloor>x\<rfloor>" using True by simp
    then have n0: "0 < n" by (simp add: n_def)
    have "rat_of_nat n = of_int \<lfloor>x\<rfloor>" using fl1 by (simp add: n_def of_nat_nat)
    then have nx: "rat_of_nat n \<le> x" "x < rat_of_nat n + 1"
      using floor_correct[of x] by simp_all
    note b = ilog2_bounds_rat[OF n0]
    have e: "binade x = int (ilog2 n)" using True by (simp add: binade_def n_def)
    have p: "2 powi binade x = (2::rat) ^ ilog2 n" "2 powi (binade x + 1) = (2::rat) ^ Suc (ilog2 n)"
      by (simp_all add: e power_int_add)
    show ?thesis
      unfolding p using nx b by (intro conjI; linarith)
  next
    case False
    define y where "y = 1 / x"
    have y1: "1 < y" using assms False by (simp add: y_def)
    define m where "m = nat (\<lceil>y\<rceil> - 1)"
    have c2: "2 \<le> \<lceil>y\<rceil>" using y1 by linarith
    then have m0: "0 < m" by (simp add: m_def)
    have my: "rat_of_nat m < y" "y \<le> rat_of_nat m + 1"
    proof -
      have "rat_of_nat m = of_int \<lceil>y\<rceil> - 1" using c2 by (simp add: m_def of_nat_nat)
      then show "rat_of_nat m < y" "y \<le> rat_of_nat m + 1"
        using ceiling_correct[of y] by simp_all
    qed
    note b = ilog2_bounds_rat[OF m0]
    have e: "binade x = - int (Suc (ilog2 m))" using False by (simp add: binade_def m_def y_def)
    have p: "2 powi binade x = 1 / (2::rat) ^ Suc (ilog2 m)"
      "2 powi (binade x + 1) = 1 / (2::rat) ^ ilog2 m"
    proof -
      show "2 powi binade x = 1 / (2::rat) ^ Suc (ilog2 m)"
        unfolding e by (simp only: power_int_minus power_int_of_nat inverse_eq_divide)
      have "binade x + 1 = - int (ilog2 m)" unfolding e by simp
      then show "2 powi (binade x + 1) = 1 / (2::rat) ^ ilog2 m"
        by (simp only: power_int_minus power_int_of_nat inverse_eq_divide)
    qed
    have xy: "x = 1 / y" using assms by (simp add: y_def)
    have "y \<le> 2 ^ Suc (ilog2 m)" using my b by linarith
    then have "1 / 2 ^ Suc (ilog2 m) \<le> 1 / y"
      using y1 by (intro divide_left_mono) simp_all
    then have "1 / 2 ^ Suc (ilog2 m) \<le> x"
      by (simp only: xy)
    then have lo: "2 powi binade x \<le> x"
      unfolding p .
    have "2 ^ ilog2 m < y" using my b by linarith
    then have "1 / y < 1 / 2 ^ ilog2 m"
      using y1 by (intro divide_strict_left_mono) (simp_all add: mult_pos_pos)
    then have "x < 1 / 2 ^ ilog2 m"
      by (simp only: xy)
    then have "x < 2 powi (binade x + 1)"
      unfolding p .
    with lo show ?thesis ..
  qed
  then show "2 powi binade x \<le> x" "x < 2 powi (binade x + 1)"
    by simp_all
qed

lemma round_even_floor: "\<lfloor>r\<rfloor> \<le> round_even r" "round_even r \<le> \<lfloor>r\<rfloor> + 1"
  by (simp_all add: round_even_def Let_def)

lemma round_even_error: "\<bar>of_int (round_even r) - r\<bar> \<le> 1 / 2"
proof -
  have "of_int \<lfloor>r\<rfloor> \<le> r" "r < of_int \<lfloor>r\<rfloor> + 1"
    using floor_correct[of r] by simp_all
  then show ?thesis
    by (auto simp: round_even_def Let_def abs_le_iff)
qed

lemma round_even_of_int [simp]: "round_even (of_int z) = z"
  by (simp add: round_even_def)

lemma round_even_ge:
  assumes "of_int z \<le> r"
  shows "z \<le> round_even r"
proof -
  have "z \<le> \<lfloor>r\<rfloor>" using assms by (simp add: le_floor_iff)
  then show ?thesis using round_even_floor(1)[of r] by linarith
qed

lemma round_even_le:
  assumes "r \<le> of_int z"
  shows "round_even r \<le> z"
proof (cases "r = of_int z")
  case True
  then show ?thesis by simp
next
  case False
  then have "r < of_int z" using assms by simp
  then have "\<lfloor>r\<rfloor> < z" by (simp add: floor_less_iff)
  then show ?thesis using round_even_floor(2)[of r] by simp
qed

lemma round_even_mono:
  assumes "r \<le> r'"
  shows "round_even r \<le> round_even r'"
proof (cases "\<lfloor>r\<rfloor> = \<lfloor>r'\<rfloor>")
  case True
  then show ?thesis
    using assms by (auto simp: round_even_def Let_def)
next
  case False
  then have "\<lfloor>r\<rfloor> < \<lfloor>r'\<rfloor>"
    using floor_mono[OF assms] by simp
  then show ?thesis
    using round_even_floor(2)[of r] round_even_floor(1)[of r'] by simp
qed

lemma ulp_pos [simp]: "0 < ulp x"
  by (simp add: ulp_def)

lemma ulp_scaled:
  assumes "0 < x"
  shows "2 ^ 52 \<le> x / ulp x" and "x / ulp x < 2 ^ 53"
proof -
  have a: "2 powi binade x = 2 ^ 52 * ulp x"
    unfolding ulp_def by (simp add: power_int_diff)
  have b: "2 powi (binade x + 1) = 2 ^ 53 * ulp x"
    unfolding ulp_def by (simp add: power_int_diff power_int_add)
  show "2 ^ 52 \<le> x / ulp x"
    using binade_bounds(1)[OF assms] unfolding a by (simp add: pos_le_divide_eq)
  show "x / ulp x < 2 ^ 53"
    using binade_bounds(2)[OF assms] unfolding b by (simp add: pos_divide_less_eq)
qed

lemma fl_pos_eq: "0 < x \<Longrightarrow> fl x = of_int (round_even (x / ulp x)) * ulp x"
  by (simp add: fl_def)

lemma fl_zero [simp]: "fl 0 = 0"
  by (simp add: fl_def)

lemma fl_minus: "fl (- x) = - fl x"
  by (simp add: fl_def)

lemma fl_bounds:
  assumes "0 < x"
  shows "2 powi binade x \<le> fl x" and "fl x \<le> 2 powi (binade x + 1)"
proof -
  have a: "2 powi binade x = 2 ^ 52 * ulp x"
    unfolding ulp_def by (simp add: power_int_diff)
  have b: "2 powi (binade x + 1) = 2 ^ 53 * ulp x"
    unfolding ulp_def by (simp add: power_int_diff power_int_add)
  have "rat_of_int (2 ^ 52) \<le> x / ulp x" "x / ulp x \<le> rat_of_int (2 ^ 53)"
    using ulp_scaled[OF assms] by simp_all
  then have "2 ^ 52 \<le> round_even (x / ulp x)" "round_even (x / ulp x) \<le> 2 ^ 53"
    by (simp_all only: round_even_ge round_even_le)
  then have "rat_of_int (2 ^ 52) \<le> of_int (round_even (x / ulp x))"
    "rat_of_int (round_even (x / ulp x)) \<le> of_int (2 ^ 53)"
    by (simp_all only: of_int_le_iff)
  then have "2 ^ 52 * ulp x \<le> of_int (round_even (x / ulp x)) * ulp x"
    "of_int (round_even (x / ulp x)) * ulp x \<le> 2 ^ 53 * ulp x"
    by (simp_all add: mult_right_mono)
  then show "2 powi binade x \<le> fl x" "fl x \<le> 2 powi (binade x + 1)"
    unfolding a b fl_pos_eq[OF assms] .
qed

lemma fl_positive: "0 < x \<Longrightarrow> 0 < fl x"
  using fl_bounds(1)[of x] zero_less_power_int[of "2::rat" "binade x"] by linarith

lemma fl_error_pos:
  assumes "0 < x"
  shows "\<bar>fl x - x\<bar> \<le> x / 2 ^ 53"
proof -
  let ?k = "rat_of_int (round_even (x / ulp x))"
  have nz: "ulp x \<noteq> 0" by (metis ulp_pos less_irrefl)
  have "fl x - x = (?k - x / ulp x) * ulp x"
    unfolding fl_pos_eq[OF assms] using nz by (simp add: left_diff_distrib)
  then have "\<bar>fl x - x\<bar> = \<bar>?k - x / ulp x\<bar> * ulp x"
    using ulp_pos[of x] by (simp add: abs_mult abs_of_pos)
  also have "\<dots> \<le> 1 / 2 * ulp x"
    by (intro mult_right_mono round_even_error less_imp_le[OF ulp_pos])
  also have "ulp x \<le> x / 2 ^ 52"
    using ulp_scaled(1)[OF assms] by (simp add: field_simps)
  finally show ?thesis by simp
qed

lemma fl_error: "\<bar>fl x - x\<bar> \<le> \<bar>x\<bar> / 2 ^ 53"
proof (cases "0 < x")
  case True
  then show ?thesis using fl_error_pos[OF True] by simp
next
  case False
  show ?thesis
  proof (cases "x = 0")
    case True
    then show ?thesis by simp
  next
    case False
    with \<open>\<not> 0 < x\<close> have "0 < - x" by simp
    from fl_error_pos[OF this] show ?thesis
      using \<open>0 < - x\<close> by (simp add: fl_minus abs_minus_commute)
  qed
qed

lemma binade_mono:
  assumes "0 < x" "x \<le> y"
  shows "binade x \<le> binade y"
proof -
  have "0 < y" using assms by simp
  have "(2::rat) powi binade x < 2 powi (binade y + 1)"
    using binade_bounds(1)[OF assms(1)] binade_bounds(2)[OF \<open>0 < y\<close>] assms(2) by linarith
  have "binade x < binade y + 1"
  proof (rule ccontr)
    assume "\<not> binade x < binade y + 1"
    then have "binade y + 1 \<le> binade x" by simp
    then have "(2::rat) powi (binade y + 1) \<le> 2 powi binade x"
      by (intro power_int_increasing) simp_all
    with \<open>(2::rat) powi binade x < 2 powi (binade y + 1)\<close> show False by simp
  qed
  then show ?thesis by simp
qed

lemma fl_mono_pos:
  assumes "0 < x" "x \<le> y"
  shows "fl x \<le> fl y"
proof (cases "binade x = binade y")
  case True
  have y: "0 < y" using assms by simp
  have u: "ulp x = ulp y" by (simp add: ulp_def True)
  have "x / ulp y \<le> y / ulp y"
    by (rule divide_right_mono[OF assms(2) less_imp_le[OF ulp_pos]])
  then have "round_even (x / ulp y) \<le> round_even (y / ulp y)"
    by (rule round_even_mono)
  then have "rat_of_int (round_even (x / ulp y)) * ulp y \<le> of_int (round_even (y / ulp y)) * ulp y"
    by (simp add: mult_right_mono)
  then show ?thesis
    unfolding fl_pos_eq[OF assms(1)] fl_pos_eq[OF y] u .
next
  case False
  have y: "0 < y" using assms by simp
  from False binade_mono[OF assms] have "binade x + 1 \<le> binade y" by simp
  then have "(2::rat) powi (binade x + 1) \<le> 2 powi binade y"
    by (intro power_int_increasing) simp_all
  then show ?thesis
    using fl_bounds(2)[OF assms(1)] fl_bounds(1)[OF y] by linarith
qed

lemma fl_mono:
  assumes "x \<le> y"
  shows "fl x \<le> fl y"
proof -
  consider "0 < x" | "x \<le> 0" "0 \<le> y" | "y < 0" by linarith
  then show ?thesis
  proof cases
    case 1
    then show ?thesis using assms by (rule fl_mono_pos)
  next
    case 2
    have "fl x \<le> 0"
      using 2(1) fl_positive[of "- x"] by (cases "x = 0") (simp_all add: fl_minus)
    moreover have "0 \<le> fl y"
      using 2(2) fl_positive[of y] by (cases "y = 0") simp_all
    ultimately show ?thesis by simp
  next
    case 3
    then have "0 < - y" "- y \<le> - x" using assms by simp_all
    from fl_mono_pos[OF this] show ?thesis by (simp add: fl_minus)
  qed
qed

section \<open>The loops, unrolled\<close>

text \<open>
  A loop whose variable takes the values \<open>xs\<close> runs its body at them in order and leaves.
  \<open>P\<close> is what the body keeps and the bound needs.
\<close>

lemma for_loop_steps:
  assumes body: "\<And>v st. P st \<Longrightarrow> body v st = Some (f v st)"
    and inv: "\<And>v st. P st \<Longrightarrow> P (f v st)"
    and bound: "\<And>st. P st \<Longrightarrow> bound st = Num b"
    and steps: "is_steps a b s xs"
    and st: "P st"
  shows "for_loop (Num a) bound (Num s) body st = Some (fold f (map Num xs) st)"
  using steps st
proof (induction xs arbitrary: a st)
  case Nil
  then show ?case
    by (subst for_loop.simps) (simp add: bound)
next
  case (Cons x xs)
  then have x: "x = a" and ab: "a < b" and rest: "is_steps (fl (a + s)) b s xs"
    by simp_all
  from Cons.IH[OF rest inv[OF \<open>P st\<close>]] show ?case
    by (subst for_loop.simps) (simp add: bound[OF \<open>P st\<close>] body[OF \<open>P st\<close>] ab x)
qed

lemma fold_put:
  assumes put: "\<And>x y (c::canvas). put x y c = c\<lparr>cv_ops := cv_ops c @ [mk x y (cv_state c)]\<rparr>"
  shows "fold (\<lambda>x. put x y) xs c = c\<lparr>cv_ops := cv_ops c @ map (\<lambda>x. mk x y (cv_state c)) xs\<rparr>"
  by (induction xs arbitrary: c) (simp_all add: put)

lemma fold_row:
  "fold (\<lambda>y c. c\<lparr>cv_ops := cv_ops c @ row y\<rparr>) ys (c::canvas) = c\<lparr>cv_ops := cv_ops c @ concat (map row ys)\<rparr>"
  by (induction ys arbitrary: c) simp_all

text \<open>The two nested loops of a tiling, for any drawing call that only appends to the canvas.\<close>

lemma tile_loops:
  assumes put: "\<And>x y (c::canvas). put x y c = c\<lparr>cv_ops := cv_ops c @ [mk x y (cv_state c)]\<rparr>"
    and xs: "is_steps (- of_nat (cv_width c)) (of_nat (cv_width c) * 2) s xs"
    and ys: "is_steps (- of_nat (cv_height c)) (of_nat (cv_height c) * 2) s ys"
  shows "for_loop (neg_height c) height_times_2 (Num s)
           (\<lambda>y c1. for_loop (neg_width c1) width_times_2 (Num s) (\<lambda>x c2. Some (put x y c2)) c1) c
         = Some (c\<lparr>cv_ops := cv_ops c @
               map (\<lambda>(x, y). mk (Num x) (Num y) (cv_state c)) (rows_of xs ys)\<rparr>)"
proof -
  define P where "P c' \<longleftrightarrow> cv_width c' = cv_width c \<and> cv_height c' = cv_height c \<and> cv_state c' = cv_state c" for c' :: canvas
  define row where "row y = map (\<lambda>x. mk (Num x) y (cv_state c)) xs" for y
  have inner: "for_loop (neg_width c1) width_times_2 (Num s) (\<lambda>x c2. Some (put x y c2)) c1
      = Some (c1\<lparr>cv_ops := cv_ops c1 @ row y\<rparr>)" if "P c1" for y c1
  proof -
    have "for_loop (Num (- of_nat (cv_width c))) width_times_2 (Num s) (\<lambda>x c2. Some (put x y c2)) c1
        = Some (fold (\<lambda>x. put x y) (map Num xs) c1)"
      by (rule for_loop_steps[where P = P, OF _ _ _ xs that])
         (simp_all add: P_def put width_times_2_def)
    then show ?thesis
      using that by (simp add: fold_put[of put mk, OF put] neg_width_def P_def row_def comp_def)
  qed
  have "for_loop (Num (- of_nat (cv_height c))) height_times_2 (Num s)
           (\<lambda>y c1. for_loop (neg_width c1) width_times_2 (Num s) (\<lambda>x c2. Some (put x y c2)) c1) c
        = Some (fold (\<lambda>y c1. c1\<lparr>cv_ops := cv_ops c1 @ row y\<rparr>) (map Num ys) c)"
    by (rule for_loop_steps[where P = P, OF _ _ _ ys])
       (simp_all add: inner P_def height_times_2_def)
  then show ?thesis
    by (simp add: fold_row neg_height_def rows_of_def row_def comp_def map_concat)
qed

section \<open>The loops end\<close>

lemma is_steps_unique: "is_steps a b s xs \<Longrightarrow> is_steps a b s xs' \<Longrightarrow> xs = xs'"
proof (induction xs arbitrary: a xs')
  case Nil
  then show ?case by (cases xs') simp_all
next
  case (Cons x xs)
  then show ?case by (cases xs') auto
qed

text \<open>A step of \<open>s\<close> from \<open>a\<close> advances by half of \<open>s\<close> at least, when \<open>a\<close> is not huge against \<open>s\<close>.\<close>

lemma step_advances:
  assumes "0 < s" and "\<bar>a\<bar> \<le> 20 * s"
  shows "a + s / 2 \<le> fl (a + s)"
proof -
  have "\<bar>a + s\<bar> \<le> 21 * s" using assms by linarith
  then have "\<bar>a + s\<bar> / 2 ^ 53 \<le> 21 * s / 2 ^ 53"
    by (simp add: divide_right_mono)
  also have "\<dots> \<le> s / 2" using assms(1) by simp
  finally have "\<bar>fl (a + s) - (a + s)\<bar> \<le> s / 2"
    using fl_error[of "a + s"] by linarith
  then show ?thesis by linarith
qed

lemma steps_upto_is_steps:
  assumes s: "0 < s"
    and adv: "\<And>a'. a0 \<le> a' \<Longrightarrow> a' < b \<Longrightarrow> a' + s / 2 \<le> fl (a' + s)"
  shows "a0 \<le> a \<Longrightarrow> nat \<lceil>2 * (b - a) / s\<rceil> \<le> n \<Longrightarrow> is_steps a b s (steps_upto n a b s)"
proof (induction n arbitrary: a)
  case 0
  then have "\<lceil>2 * (b - a) / s\<rceil> \<le> 0" by simp
  then have "2 * (b - a) / s \<le> 0" by (simp only: ceiling_le_zero)
  then have "b \<le> a" using s by (simp add: divide_le_0_iff)
  then show ?case by simp
next
  case (Suc n)
  show ?case
  proof (cases "a < b")
    case False
    then show ?thesis by simp
  next
    case True
    have next_ge: "a + s / 2 \<le> fl (a + s)" using adv[OF Suc.prems(1) True] .
    then have a0': "a0 \<le> fl (a + s)" using Suc.prems(1) s by linarith
    have "2 * (b - fl (a + s)) / s \<le> 2 * (b - a) / s - 1"
    proof -
      have "2 * a + s \<le> 2 * fl (a + s)" using next_ge by (simp add: field_simps)
      then have "2 * (b - fl (a + s)) \<le> 2 * (b - a) - s" by (simp add: algebra_simps)
      then have "2 * (b - fl (a + s)) / s \<le> (2 * (b - a) - s) / s"
        using s by (simp add: divide_right_mono)
      also have "\<dots> = 2 * (b - a) / s - 1" using s by (simp add: diff_divide_distrib)
      finally show ?thesis .
    qed
    then have "\<lceil>2 * (b - fl (a + s)) / s\<rceil> \<le> \<lceil>2 * (b - a) / s - 1\<rceil>"
      by (rule ceiling_mono)
    then have "\<lceil>2 * (b - fl (a + s)) / s\<rceil> \<le> \<lceil>2 * (b - a) / s\<rceil> - 1"
      by simp
    then have "nat \<lceil>2 * (b - fl (a + s)) / s\<rceil> \<le> n"
      using Suc.prems(2) by linarith
    from Suc.IH[OF a0' this] show ?thesis
      using True by simp
  qed
qed

lemma grid_points_is_steps:
  assumes "0 < s" and "\<bar>a\<bar> \<le> 20 * s" and "\<bar>b\<bar> \<le> 20 * s"
  shows "is_steps a b s (grid_points a b s)"
  unfolding grid_points_def
proof (rule steps_upto_is_steps[OF assms(1), where ?a0.0 = a])
  fix a'
  assume "a \<le> a'" "a' < b"
  then have "\<bar>a'\<bar> \<le> 20 * s" using assms(2,3) by linarith
  then show "a' + s / 2 \<le> fl (a' + s)" by (rule step_advances[OF assms(1)])
qed simp_all

lemma draw_text_tiles_eq:
  assumes "is_steps (- of_nat (cv_width c)) (of_nat (cv_width c) * 2) sp xs"
    and "is_steps (- of_nat (cv_height c)) (of_nat (cv_height c) * 2) sp ys"
  shows "draw_text_tiles sig (Num sp) c =
     Some (c\<lparr>cv_ops := cv_ops c @
        map (\<lambda>(x, y). FillText sig (Num x) (Num y) (cv_state c)) (rows_of xs ys)\<rparr>)"
  unfolding draw_text_tiles_def
  by (rule tile_loops[OF _ assms]) (simp add: ctx_fillText_def)

lemma draw_image_tiles_eq:
  assumes "is_steps (- of_nat (cv_width c)) (of_nat (cv_width c) * 2) sp xs"
    and "is_steps (- of_nat (cv_height c)) (of_nat (cv_height c) * 2) sp ys"
  shows "draw_image_tiles si sz (Num sp) c =
     Some (c\<lparr>cv_ops := cv_ops c @
        map (\<lambda>(x, y). DrawImage si (Num x) (Num y)
               (Some (tile_width (cv_width c) sz, tile_height (cv_width c) sz si)) (cv_state c))
          (rows_of xs ys)\<rparr>)"
  unfolding draw_image_tiles_def Let_def
  by (rule tile_loops[OF _ assms]) (simp add: ctx_drawImage_def)

section \<open>The callback computes the composite\<close>

lemma spacing_of_eq: "d \<noteq> 0 \<Longrightarrow> spacing_of w h d = Num (spacing_rat w h d)"
  by (simp add: spacing_of_def spacing_rat_def)

lemma spacing_rat_pos: "0 < d \<Longrightarrow> 0 < w \<or> 0 < h \<Longrightarrow> 0 < spacing_rat w h d"
  unfolding spacing_rat_def by (rule fl_positive) auto

text \<open>At a density of 5 at most, the spacing is a tenth of the longer side at least.\<close>

lemma spacing_rat_lower:
  assumes "0 < d" "d \<le> 5"
  shows "rat_of_nat (max w h) \<le> 10 * spacing_rat w h d"
proof -
  define x where "x = rat_of_nat (max w h) / of_int d"
  have d: "0 < rat_of_int d" "rat_of_int d \<le> 5" using assms by simp_all
  have x0: "0 \<le> x" unfolding x_def using d by simp
  have "rat_of_nat (max w h) = x * of_int d" unfolding x_def using d by simp
  also have "\<dots> \<le> x * 5" using x0 d by (intro mult_left_mono) simp_all
  finally have m: "rat_of_nat (max w h) \<le> 5 * x" by simp
  have "\<bar>fl x - x\<bar> \<le> x / 2 ^ 53" using fl_error[of x] x0 by simp
  moreover have "x / 2 ^ 53 \<le> x / 2" using x0 by (intro divide_left_mono) simp_all
  ultimately have "x / 2 \<le> fl x" by linarith
  then show ?thesis
    unfolding spacing_rat_def x_def[symmetric] using m by linarith
qed

lemma tile_grid_steps:
  assumes "0 < d" "d \<le> 5" "0 < w \<or> 0 < h"
  shows "is_steps (- of_nat w) (of_nat w * 2) (spacing_rat w h d)
           (grid_points (- of_nat w) (of_nat w * 2) (spacing_rat w h d))"
    and "is_steps (- of_nat h) (of_nat h * 2) (spacing_rat w h d)
           (grid_points (- of_nat h) (of_nat h * 2) (spacing_rat w h d))"
proof -
  let ?s = "spacing_rat w h d"
  have s: "0 < ?s" using assms(1,3) by (rule spacing_rat_pos)
  have m: "rat_of_nat (max w h) \<le> 10 * ?s" using assms(1,2) by (rule spacing_rat_lower)
  have "rat_of_nat w \<le> of_nat (max w h)" "rat_of_nat h \<le> of_nat (max w h)"
    by simp_all
  then have w: "rat_of_nat w \<le> 10 * ?s" and h: "rat_of_nat h \<le> 10 * ?s"
    using m by linarith+
  show "is_steps (- of_nat w) (of_nat w * 2) ?s (grid_points (- of_nat w) (of_nat w * 2) ?s)"
    using w by (intro grid_points_is_steps[OF s]) simp_all
  show "is_steps (- of_nat h) (of_nat h * 2) ?s (grid_points (- of_nat h) (of_nat h * 2) ?s)"
    using h by (intro grid_points_is_steps[OF s]) simp_all
qed

lemma render_watermark_eq:
  assumes d: "0 < density s" "density s \<le> 5" and wh: "0 < img_width im \<or> 0 < img_height im"
  shows "render_watermark s im cv = Some (composite s im)"
proof -
  define sp where "sp = spacing_rat (img_width im) (img_height im) (density s)"
  define c2 where "c2 = \<lparr>cv_width = img_width im, cv_height = img_height im,
      cv_ops = [base_op im], cv_state = default_state, cv_stack = []\<rparr>"
  define c5 where "c5 = c2\<lparr>cv_state := tile_state s, cv_stack := [default_state]\<rparr>"
  define c5t where "c5t = c5\<lparr>cv_state := text_state s\<rparr>"
  define c6 where "c6 = c5\<lparr>cv_ops := base_op im # text_tiles s im,
      cv_state := (if signature s = [] then tile_state s else text_state s)\<rparr>"
  define c7 where "c7 = c6\<lparr>cv_ops := base_op im # text_tiles s im @ raster_tiles s im\<rparr>"
  note steps = tile_grid_steps[OF d wh, folded sp_def]
  have g: "rows_of (grid_points (- of_nat (img_width im)) (of_nat (img_width im) * 2) sp)
      (grid_points (- of_nat (img_height im)) (of_nat (img_height im) * 2) sp)
      = tile_grid (img_width im) (img_height im) sp"
    by (simp add: tile_grid_def)
  have e2: "ctx_drawImage im (Num 0) (Num 0) None
      (set_height (img_height im) (set_width (img_width im) cv)) = c2"
    by (simp add: c2_def ctx_drawImage_def set_height_def set_width_def base_op_def)
  have spo: "spacing_of (cv_width c2) (cv_height c2) (density s) = Num sp"
    using d(1) by (simp add: spacing_of_eq sp_def c2_def)
  have e5: "set_globalAlpha (opacity s) (ctx_rotate (rat_of_int (angle s) / 180) (ctx_save c2)) = c5"
    by (simp add: c5_def c2_def set_globalAlpha_def ctx_rotate_def ctx_save_def tile_state_def
        default_state_def)
  have et: "set_fillStyle_rgba (parseInt16 (substr (textColor s) 1 2))
      (parseInt16 (substr (textColor s) 3 2)) (parseInt16 (substr (textColor s) 5 2))
      (opacity s) (set_font (number_to_string (fontSize s) @ ''px Arial'') c5) = c5t"
    by (simp add: c5t_def c5_def c2_def set_fillStyle_rgba_def set_font_def text_state_def
        text_fill_def tile_state_def default_state_def split: option.splits)
  have t: "draw_text_tiles sig (Num sp) c5t = Some (c5t\<lparr>cv_ops := cv_ops c5t @
        map (\<lambda>(x, y). FillText sig (Num x) (Num y) (cv_state c5t))
          (tile_grid (img_width im) (img_height im) sp)\<rparr>)" for sig
    unfolding g[symmetric]
    by (rule draw_text_tiles_eq) (simp_all add: c5t_def c5_def c2_def steps)
  have e6: "(if signature s \<noteq> [] then draw_text_tiles (signature s) (Num sp) c5t else Some c5)
      = Some c6"
    unfolding t by (simp add: c6_def c5t_def c5_def c2_def text_tiles_def sp_def[symmetric])
  have r: "draw_image_tiles si sz (Num sp) c6 = Some (c6\<lparr>cv_ops := cv_ops c6 @
        map (\<lambda>(x, y). DrawImage si (Num x) (Num y)
               (Some (tile_width (cv_width c6) sz, tile_height (cv_width c6) sz si)) (cv_state c6))
          (tile_grid (img_width im) (img_height im) sp)\<rparr>)" for si sz
    unfolding g[symmetric]
    by (rule draw_image_tiles_eq) (simp_all add: c6_def c5_def c2_def steps)
  have e7: "(case signatureImage s of Some si \<Rightarrow> draw_image_tiles si (signatureSize s) (Num sp) c6
      | None \<Rightarrow> Some c6) = Some c7"
    unfolding r by (simp add: c7_def c6_def c5_def c2_def raster_tiles_def
        sp_def[symmetric] split: option.splits)
  have e8: "ctx_restore c7 = composite s im"
    by (simp add: ctx_restore_def c7_def c6_def c5_def c2_def composite_def)
  show ?thesis
    unfolding render_watermark_def Let_def e2 spo e5 et e6
    by (simp add: e7 e8)
qed

lemma watermark_effect_runs:
  assumes "image_s s = Some im" "canvasRef s = Some cv"
    and "signature s \<noteq> [] \<or> signatureImage s \<noteq> None"
    and "0 < density s" "density s \<le> 5" "0 < img_width im \<or> 0 < img_height im"
  shows "watermark_effect env s =
     Some (s\<lparr>canvasRef := Some (composite s im),
             watermarkedImage := Some (toDataURL env (composite s im)),
             isProcessing := False\<rparr>)"
  using assms(1-3) by (auto simp: watermark_effect_def render_watermark_eq[OF assms(4,5,6)])

lemma watermark_effect_skips:
  "signature s = [] \<Longrightarrow> signatureImage s = None \<Longrightarrow> watermark_effect env s = Some s"
  by (simp add: watermark_effect_def split: option.splits)

section \<open>Doubles, computed\<close>

text \<open>
  A double is found from its binade \<open>e\<close> and the floor \<open>f\<close> of the scaled significand:
  the rules below turn the evaluation of \<open>fl\<close> at a numeral into comparisons of numerals.
\<close>

lemma binade_unique:
  assumes "0 < x" "2 powi e \<le> x" "x < 2 powi (e + 1)"
  shows "binade x = e"
proof -
  have lt: "i < j + 1" if "(2::rat) powi i < 2 powi (j + 1)" for i j :: int
  proof (rule ccontr)
    assume "\<not> i < j + 1"
    then have "j + 1 \<le> i" by simp
    then have "(2::rat) powi (j + 1) \<le> 2 powi i"
      by (intro power_int_increasing) simp_all
    with that show False by simp
  qed
  have "(2::rat) powi binade x < 2 powi (e + 1)"
    using binade_bounds(1)[OF assms(1)] assms(3) by linarith
  then have "binade x < e + 1" by (rule lt)
  moreover have "(2::rat) powi e < 2 powi (binade x + 1)"
    using binade_bounds(2)[OF assms(1)] assms(2) by linarith
  then have "e < binade x + 1" by (rule lt)
  ultimately show ?thesis by simp
qed

lemma round_even_is:
  assumes "of_int f \<le> r" and "r < of_int f + 1"
    and "k = (if r - of_int f < 1 / 2 then f else if 1 / 2 < r - of_int f then f + 1
              else if even f then f else f + 1)"
  shows "round_even r = k"
proof -
  have "\<lfloor>r\<rfloor> = f" using assms(1,2) by (intro floor_unique) simp_all
  then show ?thesis unfolding assms(3) by (simp add: round_even_def Let_def)
qed

lemma fl_is:
  assumes "0 < x" and "2 powi e \<le> x" and "x < 2 powi (e + 1)"
    and "of_int f \<le> x / 2 powi (e - 52)" and "x / 2 powi (e - 52) < of_int f + 1"
    and "k = (if x / 2 powi (e - 52) - of_int f < 1 / 2 then f
              else if 1 / 2 < x / 2 powi (e - 52) - of_int f then f + 1
              else if even f then f else f + 1)"
    and "y = of_int k * 2 powi (e - 52)"
  shows "fl x = y"
  unfolding fl_pos_eq[OF assms(1)] ulp_def binade_unique[OF assms(1-3)]
    round_even_is[OF assms(4-6)] assms(7) ..

lemma fl_is_neg:
  assumes "x < 0" and "2 powi e \<le> - x" and "- x < 2 powi (e + 1)"
    and "of_int f \<le> - x / 2 powi (e - 52)" and "- x / 2 powi (e - 52) < of_int f + 1"
    and "k = (if - x / 2 powi (e - 52) - of_int f < 1 / 2 then f
              else if 1 / 2 < - x / 2 powi (e - 52) - of_int f then f + 1
              else if even f then f else f + 1)"
    and "y = - (of_int k * 2 powi (e - 52))"
  shows "fl x = y"
proof -
  have "fl (- x) = of_int k * 2 powi (e - 52)"
    using assms(1-6) by (intro fl_is[where f = f]) simp_all
  then show ?thesis using assms(7) by (simp add: fl_minus)
qed

lemma fl_exact_nat:
  assumes "n < 2 ^ 53"
  shows "fl (rat_of_nat n) = of_nat n"
proof (cases "n = 0")
  case True
  then show ?thesis by simp
next
  case False
  define x where "x = rat_of_nat n"
  have x: "0 < x" using False by (simp add: x_def)
  have "x < 2 ^ 53"
  proof -
    have "rat_of_nat n < rat_of_nat (2 ^ 53)" using assms by (simp only: of_nat_less_iff)
    then show ?thesis by (simp add: x_def)
  qed
  then have "(2::rat) powi binade x < 2 powi 53"
    using binade_bounds(1)[OF x] by simp
  have e: "binade x \<le> 52"
  proof (rule ccontr)
    assume "\<not> binade x \<le> 52"
    then have "53 \<le> binade x" by simp
    then have "(2::rat) powi 53 \<le> 2 powi binade x"
      by (intro power_int_increasing) simp_all
    with \<open>(2::rat) powi binade x < 2 powi 53\<close> show False by simp
  qed
  define j where "j = nat (52 - binade x)"
  have u: "ulp x = 1 / 2 ^ j"
  proof -
    have "binade x - 52 = - int j" using e by (simp add: j_def)
    then show ?thesis
      unfolding ulp_def by (simp only: power_int_minus power_int_of_nat inverse_eq_divide)
  qed
  have "x / ulp x = rat_of_int (int n * 2 ^ j)"
    unfolding u by (simp add: x_def)
  then have "round_even (x / ulp x) = int n * 2 ^ j"
    by (simp only: round_even_of_int)
  then have "fl x = rat_of_int (int n * 2 ^ j) * ulp x"
    by (simp add: fl_pos_eq[OF x])
  also have "\<dots> = x" unfolding u by (simp add: x_def)
  finally show ?thesis by (simp add: x_def)
qed

lemma fl_small_numbers: "fl 1 = 1" "fl 2 = 2" "fl 200 = 200" "fl 400 = 400" "fl 800 = 800"
  "fl 80000 = 80000"
  using fl_exact_nat[of 1] fl_exact_nat[of 2] fl_exact_nat[of 200] fl_exact_nat[of 400]
    fl_exact_nat[of 800] fl_exact_nat[of 80000]
  by simp_all

lemma fl_800_3: "fl (800 / 3) = 4691249611844267 / 17592186044416"
  by (rule fl_is[where e = 8 and f = 4691249611844266 and k = 4691249611844267]) simp_all

lemma spacing_800_600: "spacing_rat 800 600 3 = 4691249611844267 / 17592186044416"
  unfolding spacing_rat_def by (simp add: fl_800_3)

lemma ratio_3_7: "fl (3 / 7) = 7720456504063707 / 18014398509481984"
  by (rule fl_is[where e = "-2" and f = 7720456504063707 and k = 7720456504063707]) simp_all

lemma height_2_by_ratio_3_7:
  "fl (2 / (7720456504063707 / 18014398509481984)) = 5254199565265579 / 1125899906842624"
  by (rule fl_is[where e = "2" and f = 5254199565265578 and k = 5254199565265579]) simp_all

text \<open>
  The height of a tile is rounded twice, in the ratio and in the quotient: for a signature
  of 3 by 7 on a canvas 2 wide it is the double 4.666666666666667, which is not \<open>14 / 3\<close>.
\<close>

lemma tile_height_rounds:
  "tile_height 2 100 \<lparr>img_width = 3, img_height = 7, img_src = src\<rparr>
     = Num (5254199565265579 / 1125899906842624)"
proof -
  have nonzero: "fl (3 / 7) \<noteq> 0"
    unfolding ratio_3_7 by simp
  have "tile_height 2 100 \<lparr>img_width = 3, img_height = 7, img_src = src\<rparr>
     = Num (fl (2 / fl (3 / 7)))"
    by (simp add: tile_height_def tile_width_def tile_ratio_def fl_small_numbers nonzero)
  then show ?thesis
    unfolding ratio_3_7 height_2_by_ratio_3_7 .
qed

lemma tile_height_inexact: "5254199565265579 / 1125899906842624 \<noteq> (14 / 3 :: rat)"
  by simp

section \<open>The model on samples\<close>

lemma decimal_samples: "decimal 2025 = ''2025''" "decimal 0 = ''0''" "number_to_string (-45) = ''-45''"
  by (simp_all add: decimal.simps digit_char_def number_to_string_def)

lemma parseInt16_samples: "parseInt16 ''ff'' = Some 255" "parseInt16 ''0A'' = Some 10"
  "parseInt16 ''g1'' = None" "parseInt16 ''1g'' = Some 1" "parseInt16 '''' = None"
  "parseInt16 ''-f'' = Some (-15)" "parseInt16 ''0x'' = None"
  by (simp_all add: parseInt16_def hex_digit_def js_whitespace_def)

lemma text_state_sample:
  "text_state text_sample =
     \<lparr>ds_rotation = 1 / 4, ds_globalAlpha = 1 / 2, ds_fillStyle = Rgba 0 0 0 (1 / 2),
      ds_font = ''20px Arial''\<rparr>"
  by (simp add: text_state_def tile_state_def text_fill_def text_sample_def initial_state_def
      default_state_def substr_def parseInt16_def hex_digit_def js_whitespace_def
      number_to_string_def decimal.simps digit_char_def)

lemma hiddenMessage_sample: "hiddenMessage failing_encoder_browser = ''Copyright 2025''"
  by (simp add: hiddenMessage_def failing_encoder_browser_def decimal.simps digit_char_def)

lemma for_loop_finite_step:
  "for_loop (Num 0) (\<lambda>s. Num 2) (Num 1) (\<lambda>v s. Some (s @ [v])) [] = Some [Num 0, Num 1]"
  by (simp add: for_loop.simps fl_small_numbers)

lemma for_loop_infinite_step:
  "for_loop (Num 0) (\<lambda>s. Num 2) PosInf (\<lambda>v s. Some (s @ [v])) [] = Some [Num 0]"
  by (simp add: for_loop.simps)

text \<open>
  The loops of the callback on the base image of 2 by 1, step by step in doubles: at the
  default density 3 there are 10 columns and 5 rows, at density 5 there are 16 and 8.
\<close>

lemma sample_spacing: "spacing_rat 2 1 3 = 6004799503160661 / 9007199254740992"
  unfolding spacing_rat_def
  by (rule fl_is[where e = "-1" and f = 6004799503160661 and k = 6004799503160661]) simp_all

lemma sample_x_0: "fl ((- 2) + (6004799503160661 / 9007199254740992)) = (- (3002399751580331 / 2251799813685248))"
  by (rule fl_is_neg[where e = "0" and f = 6004799503160661 and k = 6004799503160662]) simp_all

lemma sample_x_1: "fl ((- (3002399751580331 / 2251799813685248)) + (6004799503160661 / 9007199254740992)) = (- (6004799503160663 / 9007199254740992))"
  by (rule fl_is_neg[where e = "-1" and f = 6004799503160663 and k = 6004799503160663]) simp_all

lemma sample_x_2: "fl ((- (6004799503160663 / 9007199254740992)) + (6004799503160661 / 9007199254740992)) = (- (1 / 4503599627370496))"
  by (rule fl_is_neg[where e = "-52" and f = 4503599627370496 and k = 4503599627370496]) simp_all

lemma sample_x_3: "fl ((- (1 / 4503599627370496)) + (6004799503160661 / 9007199254740992)) = (6004799503160659 / 9007199254740992)"
  by (rule fl_is[where e = "-1" and f = 6004799503160659 and k = 6004799503160659]) simp_all

lemma sample_x_4: "fl ((6004799503160659 / 9007199254740992) + (6004799503160661 / 9007199254740992)) = (1501199875790165 / 1125899906842624)"
  by (rule fl_is[where e = "0" and f = 6004799503160660 and k = 6004799503160660]) simp_all

lemma sample_x_5: "fl ((1501199875790165 / 1125899906842624) + (6004799503160661 / 9007199254740992)) = (4503599627370495 / 2251799813685248)"
  by (rule fl_is[where e = "0" and f = 9007199254740990 and k = 9007199254740990]) simp_all

lemma sample_x_6: "fl ((4503599627370495 / 2251799813685248) + (6004799503160661 / 9007199254740992)) = (1501199875790165 / 562949953421312)"
  by (rule fl_is[where e = "1" and f = 6004799503160660 and k = 6004799503160660]) simp_all

lemma sample_x_7: "fl ((1501199875790165 / 562949953421312) + (6004799503160661 / 9007199254740992)) = (7505999378950825 / 2251799813685248)"
  by (rule fl_is[where e = "1" and f = 7505999378950825 and k = 7505999378950825]) simp_all

lemma sample_x_8: "fl ((7505999378950825 / 2251799813685248) + (6004799503160661 / 9007199254740992)) = (4503599627370495 / 1125899906842624)"
  by (rule fl_is[where e = "1" and f = 9007199254740990 and k = 9007199254740990]) simp_all

lemma sample_x_9: "fl ((4503599627370495 / 1125899906842624) + (6004799503160661 / 9007199254740992)) = (2627099782632789 / 562949953421312)"
  by (rule fl_is[where e = "2" and f = 5254199565265577 and k = 5254199565265578]) simp_all

lemma sample_y_0: "fl ((- 1) + (6004799503160661 / 9007199254740992)) = (- (3002399751580331 / 9007199254740992))"
  by (rule fl_is_neg[where e = "-2" and f = 6004799503160662 and k = 6004799503160662]) simp_all

lemma sample_y_1: "fl ((- (3002399751580331 / 9007199254740992)) + (6004799503160661 / 9007199254740992)) = (1501199875790165 / 4503599627370496)"
  by (rule fl_is[where e = "-2" and f = 6004799503160660 and k = 6004799503160660]) simp_all

lemma sample_y_2: "fl ((1501199875790165 / 4503599627370496) + (6004799503160661 / 9007199254740992)) = (9007199254740991 / 9007199254740992)"
  by (rule fl_is[where e = "-1" and f = 9007199254740991 and k = 9007199254740991]) simp_all

lemma sample_y_3: "fl ((9007199254740991 / 9007199254740992) + (6004799503160661 / 9007199254740992)) = (3752999689475413 / 2251799813685248)"
  by (rule fl_is[where e = "0" and f = 7505999378950826 and k = 7505999378950826]) simp_all

lemma sample_y_4: "fl ((3752999689475413 / 2251799813685248) + (6004799503160661 / 9007199254740992)) = (2627099782632789 / 1125899906842624)"
  by (rule fl_is[where e = "1" and f = 5254199565265578 and k = 5254199565265578]) simp_all

lemma sample_columns:
  "is_steps (- 2) 4 (6004799503160661 / 9007199254740992)
     [- 2, - (3002399751580331 / 2251799813685248), - (6004799503160663 / 9007199254740992), - (1 / 4503599627370496), 6004799503160659 / 9007199254740992, 1501199875790165 / 1125899906842624, 4503599627370495 / 2251799813685248, 1501199875790165 / 562949953421312, 7505999378950825 / 2251799813685248, 4503599627370495 / 1125899906842624]"
  unfolding is_steps.simps sample_x_0 sample_x_1 sample_x_2 sample_x_3 sample_x_4 sample_x_5 sample_x_6 sample_x_7 sample_x_8 sample_x_9 by simp

lemma sample_rows:
  "is_steps (- 1) 2 (6004799503160661 / 9007199254740992)
     [- 1, - (3002399751580331 / 9007199254740992), 1501199875790165 / 4503599627370496, 9007199254740991 / 9007199254740992, 3752999689475413 / 2251799813685248]"
  unfolding is_steps.simps sample_y_0 sample_y_1 sample_y_2 sample_y_3 sample_y_4 by simp

lemma sample_tile_count: "length (tile_grid 2 1 (spacing_rat 2 1 3)) = 50"
proof -
  have g: "is_steps (- 2) 4 (spacing_rat 2 1 3) (grid_points (- 2) 4 (spacing_rat 2 1 3))"
    "is_steps (- 1) 2 (spacing_rat 2 1 3) (grid_points (- 1) 2 (spacing_rat 2 1 3))"
    using tile_grid_steps[of 3 2 1] by simp_all
  have "length (grid_points (- 2) 4 (spacing_rat 2 1 3)) = 10"
    unfolding sample_spacing is_steps_unique[OF g(1)[unfolded sample_spacing] sample_columns]
    by simp
  moreover have "length (grid_points (- 1) 2 (spacing_rat 2 1 3)) = 5"
    unfolding sample_spacing is_steps_unique[OF g(2)[unfolded sample_spacing] sample_rows]
    by simp
  ultimately show ?thesis
    by (simp add: tile_grid_def rows_of_def length_concat comp_def sum_list_triv)
qed

lemma sample_grid_x: "grid_points (- 2) 4 (spacing_rat 2 1 3) = [- 2, - (3002399751580331 / 2251799813685248), - (6004799503160663 / 9007199254740992), - (1 / 4503599627370496), 6004799503160659 / 9007199254740992, 1501199875790165 / 1125899906842624, 4503599627370495 / 2251799813685248, 1501199875790165 / 562949953421312, 7505999378950825 / 2251799813685248, 4503599627370495 / 1125899906842624]"
proof -
  have "is_steps (- 2) 4 (spacing_rat 2 1 3) (grid_points (- 2) 4 (spacing_rat 2 1 3))"
    using tile_grid_steps(1)[of 3 2 1] by simp
  then show ?thesis
    unfolding sample_spacing by (rule is_steps_unique[OF _ sample_columns])
qed

lemma sample_grid_y: "grid_points (- 1) 2 (spacing_rat 2 1 3) = [- 1, - (3002399751580331 / 9007199254740992), 1501199875790165 / 4503599627370496, 9007199254740991 / 9007199254740992, 3752999689475413 / 2251799813685248]"
proof -
  have "is_steps (- 1) 2 (spacing_rat 2 1 3) (grid_points (- 1) 2 (spacing_rat 2 1 3))"
    using tile_grid_steps(2)[of 3 2 1] by simp
  then show ?thesis
    unfolding sample_spacing by (rule is_steps_unique[OF _ sample_rows])
qed

lemma sample_tile_grid: "tile_grid 2 1 (spacing_rat 2 1 3) = rows_of [- 2, - (3002399751580331 / 2251799813685248), - (6004799503160663 / 9007199254740992), - (1 / 4503599627370496), 6004799503160659 / 9007199254740992, 1501199875790165 / 1125899906842624, 4503599627370495 / 2251799813685248, 1501199875790165 / 562949953421312, 7505999378950825 / 2251799813685248, 4503599627370495 / 1125899906842624] [- 1, - (3002399751580331 / 9007199254740992), 1501199875790165 / 4503599627370496, 9007199254740991 / 9007199254740992, 3752999689475413 / 2251799813685248]"
  unfolding tile_grid_def using sample_grid_x sample_grid_y by simp

lemma dense_spacing: "spacing_rat 2 1 5 = 3602879701896397 / 9007199254740992"
  unfolding spacing_rat_def
  by (rule fl_is[where e = "-2" and f = 7205759403792793 and k = 7205759403792794]) simp_all

lemma dense_x_0: "fl ((- 2) + (3602879701896397 / 9007199254740992)) = (- (3602879701896397 / 2251799813685248))"
  by (rule fl_is_neg[where e = "0" and f = 7205759403792793 and k = 7205759403792794]) simp_all

lemma dense_x_1: "fl ((- (3602879701896397 / 2251799813685248)) + (3602879701896397 / 9007199254740992)) = (- (1351079888211149 / 1125899906842624))"
  by (rule fl_is_neg[where e = "0" and f = 5404319552844595 and k = 5404319552844596]) simp_all

lemma dense_x_2: "fl ((- (1351079888211149 / 1125899906842624)) + (3602879701896397 / 9007199254740992)) = (- (7205759403792795 / 9007199254740992))"
  by (rule fl_is_neg[where e = "-1" and f = 7205759403792795 and k = 7205759403792795]) simp_all

lemma dense_x_3: "fl ((- (7205759403792795 / 9007199254740992)) + (3602879701896397 / 9007199254740992)) = (- (1801439850948199 / 4503599627370496))"
  by (rule fl_is_neg[where e = "-2" and f = 7205759403792796 and k = 7205759403792796]) simp_all

lemma dense_x_4: "fl ((- (1801439850948199 / 4503599627370496)) + (3602879701896397 / 9007199254740992)) = (- (1 / 9007199254740992))"
  by (rule fl_is_neg[where e = "-53" and f = 4503599627370496 and k = 4503599627370496]) simp_all

lemma dense_x_5: "fl ((- (1 / 9007199254740992)) + (3602879701896397 / 9007199254740992)) = (900719925474099 / 2251799813685248)"
  by (rule fl_is[where e = "-2" and f = 7205759403792792 and k = 7205759403792792]) simp_all

lemma dense_x_6: "fl ((900719925474099 / 2251799813685248) + (3602879701896397 / 9007199254740992)) = (7205759403792793 / 9007199254740992)"
  by (rule fl_is[where e = "-1" and f = 7205759403792793 and k = 7205759403792793]) simp_all

lemma dense_x_7: "fl ((7205759403792793 / 9007199254740992) + (3602879701896397 / 9007199254740992)) = (5404319552844595 / 4503599627370496)"
  by (rule fl_is[where e = "0" and f = 5404319552844595 and k = 5404319552844595]) simp_all

lemma dense_x_8: "fl ((5404319552844595 / 4503599627370496) + (3602879701896397 / 9007199254740992)) = (3602879701896397 / 2251799813685248)"
  by (rule fl_is[where e = "0" and f = 7205759403792793 and k = 7205759403792794]) simp_all

lemma dense_x_9: "fl ((3602879701896397 / 2251799813685248) + (3602879701896397 / 9007199254740992)) = 2"
  by (rule fl_is[where e = "1" and f = 4503599627370496 and k = 4503599627370496]) simp_all

lemma dense_x_10: "fl (2 + (3602879701896397 / 9007199254740992)) = (5404319552844595 / 2251799813685248)"
  by (rule fl_is[where e = "1" and f = 5404319552844595 and k = 5404319552844595]) simp_all

lemma dense_x_11: "fl ((5404319552844595 / 2251799813685248) + (3602879701896397 / 9007199254740992)) = (3152519739159347 / 1125899906842624)"
  by (rule fl_is[where e = "1" and f = 6305039478318694 and k = 6305039478318694]) simp_all

lemma dense_x_12: "fl ((3152519739159347 / 1125899906842624) + (3602879701896397 / 9007199254740992)) = (7205759403792793 / 2251799813685248)"
  by (rule fl_is[where e = "1" and f = 7205759403792793 and k = 7205759403792793]) simp_all

lemma dense_x_13: "fl ((7205759403792793 / 2251799813685248) + (3602879701896397 / 9007199254740992)) = (2026619832316723 / 562949953421312)"
  by (rule fl_is[where e = "1" and f = 8106479329266892 and k = 8106479329266892]) simp_all

lemma dense_x_14: "fl ((2026619832316723 / 562949953421312) + (3602879701896397 / 9007199254740992)) = (9007199254740991 / 2251799813685248)"
  by (rule fl_is[where e = "1" and f = 9007199254740991 and k = 9007199254740991]) simp_all

lemma dense_x_15: "fl ((9007199254740991 / 2251799813685248) + (3602879701896397 / 9007199254740992)) = (4953959590107545 / 1125899906842624)"
  by (rule fl_is[where e = "2" and f = 4953959590107545 and k = 4953959590107545]) simp_all

lemma dense_y_0: "fl ((- 1) + (3602879701896397 / 9007199254740992)) = (- (5404319552844595 / 9007199254740992))"
  by (rule fl_is_neg[where e = "-1" and f = 5404319552844595 and k = 5404319552844595]) simp_all

lemma dense_y_1: "fl ((- (5404319552844595 / 9007199254740992)) + (3602879701896397 / 9007199254740992)) = (- (900719925474099 / 4503599627370496))"
  by (rule fl_is_neg[where e = "-3" and f = 7205759403792792 and k = 7205759403792792]) simp_all

lemma dense_y_2: "fl ((- (900719925474099 / 4503599627370496)) + (3602879701896397 / 9007199254740992)) = (1801439850948199 / 9007199254740992)"
  by (rule fl_is[where e = "-3" and f = 7205759403792796 and k = 7205759403792796]) simp_all

lemma dense_y_3: "fl ((1801439850948199 / 9007199254740992) + (3602879701896397 / 9007199254740992)) = (1351079888211149 / 2251799813685248)"
  by (rule fl_is[where e = "-1" and f = 5404319552844596 and k = 5404319552844596]) simp_all

lemma dense_y_4: "fl ((1351079888211149 / 2251799813685248) + (3602879701896397 / 9007199254740992)) = 1"
  by (rule fl_is[where e = "0" and f = 4503599627370496 and k = 4503599627370496]) simp_all

lemma dense_y_5: "fl (1 + (3602879701896397 / 9007199254740992)) = (3152519739159347 / 2251799813685248)"
  by (rule fl_is[where e = "0" and f = 6305039478318694 and k = 6305039478318694]) simp_all

lemma dense_y_6: "fl ((3152519739159347 / 2251799813685248) + (3602879701896397 / 9007199254740992)) = (2026619832316723 / 1125899906842624)"
  by (rule fl_is[where e = "0" and f = 8106479329266892 and k = 8106479329266892]) simp_all

lemma dense_y_7: "fl ((2026619832316723 / 1125899906842624) + (3602879701896397 / 9007199254740992)) = (4953959590107545 / 2251799813685248)"
  by (rule fl_is[where e = "1" and f = 4953959590107545 and k = 4953959590107545]) simp_all

lemma dense_columns:
  "is_steps (- 2) 4 (3602879701896397 / 9007199254740992)
     [- 2, - (3602879701896397 / 2251799813685248), - (1351079888211149 / 1125899906842624), - (7205759403792795 / 9007199254740992), - (1801439850948199 / 4503599627370496), - (1 / 9007199254740992), 900719925474099 / 2251799813685248, 7205759403792793 / 9007199254740992, 5404319552844595 / 4503599627370496, 3602879701896397 / 2251799813685248, 2, 5404319552844595 / 2251799813685248, 3152519739159347 / 1125899906842624, 7205759403792793 / 2251799813685248, 2026619832316723 / 562949953421312, 9007199254740991 / 2251799813685248]"
  unfolding is_steps.simps dense_x_0 dense_x_1 dense_x_2 dense_x_3 dense_x_4 dense_x_5 dense_x_6 dense_x_7 dense_x_8 dense_x_9 dense_x_10 dense_x_11 dense_x_12 dense_x_13 dense_x_14 dense_x_15 by simp

lemma dense_rows:
  "is_steps (- 1) 2 (3602879701896397 / 9007199254740992)
     [- 1, - (5404319552844595 / 9007199254740992), - (900719925474099 / 4503599627370496), 1801439850948199 / 9007199254740992, 1351079888211149 / 2251799813685248, 1, 3152519739159347 / 2251799813685248, 2026619832316723 / 1125899906842624]"
  unfolding is_steps.simps dense_y_0 dense_y_1 dense_y_2 dense_y_3 dense_y_4 dense_y_5 dense_y_6 dense_y_7 by simp

lemma dense_tile_count: "length (tile_grid 2 1 (spacing_rat 2 1 5)) = 128"
proof -
  have g: "is_steps (- 2) 4 (spacing_rat 2 1 5) (grid_points (- 2) 4 (spacing_rat 2 1 5))"
    "is_steps (- 1) 2 (spacing_rat 2 1 5) (grid_points (- 1) 2 (spacing_rat 2 1 5))"
    using tile_grid_steps[of 5 2 1] by simp_all
  have "length (grid_points (- 2) 4 (spacing_rat 2 1 5)) = 16"
    unfolding dense_spacing is_steps_unique[OF g(1)[unfolded dense_spacing] dense_columns]
    by simp
  moreover have "length (grid_points (- 1) 2 (spacing_rat 2 1 5)) = 8"
    unfolding dense_spacing is_steps_unique[OF g(2)[unfolded dense_spacing] dense_rows]
    by simp
  ultimately show ?thesis
    by (simp add: tile_grid_def rows_of_def length_concat comp_def sum_list_triv)
qed

section \<open>Facts about the grid and the composite\<close>

lemma is_steps_length_mono:
  "is_steps a b s xs \<Longrightarrow> is_steps a' b s' xs' \<Longrightarrow> a' \<le> a \<Longrightarrow> s' \<le> s
     \<Longrightarrow> length xs \<le> length xs'"
proof (induction xs arbitrary: a a' xs')
  case Nil
  then show ?case by simp
next
  case (Cons x xs)
  then have ab: "a < b" and rest: "is_steps (fl (a + s)) b s xs" by simp_all
  with Cons.prems(3) have "a' < b" by simp
  then obtain xr where xs': "xs' = a' # xr" and rest': "is_steps (fl (a' + s')) b s' xr"
    using Cons.prems(2) by (cases xs') simp_all
  have "fl (a' + s') \<le> fl (a + s)"
    using Cons.prems(3,4) by (intro fl_mono) simp
  from Cons.IH[OF rest rest' this Cons.prems(4)] show ?case
    by (simp add: xs')
qed

lemma rows_of_length: "length (rows_of xs ys) = length xs * length ys"
  unfolding rows_of_def by (induction ys) simp_all

lemma tile_grid_length_mono:
  assumes "0 < d" "d \<le> d'" "d' \<le> 5" "0 < w \<or> 0 < h"
    and "spacing_rat w h d' \<le> spacing_rat w h d"
  shows "length (tile_grid w h (spacing_rat w h d)) \<le> length (tile_grid w h (spacing_rat w h d'))"
proof -
  have d5: "d \<le> 5" and d'0: "0 < d'" using assms(1-3) by simp_all
  note a = tile_grid_steps[OF assms(1) d5 assms(4)]
  note b = tile_grid_steps[OF d'0 assms(3) assms(4)]
  have "length (grid_points (- of_nat w) (of_nat w * 2) (spacing_rat w h d))
      \<le> length (grid_points (- of_nat w) (of_nat w * 2) (spacing_rat w h d'))"
    by (rule is_steps_length_mono[OF a(1) b(1) _ assms(5)]) simp
  moreover have "length (grid_points (- of_nat h) (of_nat h * 2) (spacing_rat w h d))
      \<le> length (grid_points (- of_nat h) (of_nat h * 2) (spacing_rat w h d'))"
    by (rule is_steps_length_mono[OF a(2) b(2) _ assms(5)]) simp
  ultimately show ?thesis
    unfolding tile_grid_def rows_of_length by (rule mult_le_mono)
qed

text \<open>Between two densities from 1 to 5 the rounding cannot close the gap of the quotients.\<close>

lemma spacing_rat_antimono:
  assumes "0 < w \<or> 0 < h" "0 < d" "d < d'" "d' \<le> 5"
  shows "spacing_rat w h d' < spacing_rat w h d"
proof -
  define m where "m = rat_of_nat (max w h)"
  have m: "0 < m" using assms(1) by (auto simp: m_def)
  define x where "x = m / of_int d"
  define x' where "x' = m / of_int d'"
  have "d + 1 \<le> d'" using assms(3) by simp
  then have "rat_of_int (d + 1) \<le> rat_of_int d'" by (simp only: of_int_le_iff)
  then have d: "0 < rat_of_int d" "rat_of_int d + 1 \<le> of_int d'" "rat_of_int d' \<le> 5"
    using assms(2,4) by simp_all
  have x: "0 < x" and x': "0 < x'" using m d by (simp_all add: x_def x'_def)
  have mx: "m = x * of_int d" "m = x' * of_int d'" using d by (simp_all add: x_def x'_def)
  have gap: "5 * x' \<le> 4 * x"
  proof -
    define t where "t = (x - x') * of_int d"
    have d4: "rat_of_int d \<le> 4" using d by linarith
    have "x' * (of_int d + 1) \<le> x' * of_int d'"
      using x' d(2) by (intro mult_left_mono) simp_all
    also have "\<dots> = x * of_int d" using mx by simp
    finally have "x' \<le> t" by (simp add: t_def algebra_simps)
    moreover have "0 \<le> x - x'"
    proof -
      have "x' \<le> x"
        unfolding x_def x'_def using m d by (intro divide_left_mono) (simp_all add: mult_pos_pos)
      then show ?thesis by simp
    qed
    then have "t \<le> (x - x') * 4"
      unfolding t_def using d4 by (intro mult_left_mono) simp_all
    then have "t \<le> 4 * x - 4 * x'" by (simp add: algebra_simps)
    ultimately show ?thesis by simp
  qed
  have "\<bar>fl x - x\<bar> \<le> x / 2 ^ 53" "\<bar>fl x' - x'\<bar> \<le> x' / 2 ^ 53"
    using fl_error[of x] fl_error[of x'] x x' by simp_all
  moreover have "x / 2 ^ 53 \<le> x / 16" "x' / 2 ^ 53 \<le> x' / 16"
    using x x' by (simp_all add: divide_left_mono)
  ultimately have "fl x' \<le> x' + x' / 16" "x - x / 16 \<le> fl x" by linarith+
  then have "fl x' < fl x" using gap x x' by linarith
  then show ?thesis by (simp add: spacing_rat_def x_def x'_def m_def)
qed

lemma tile_grid_nonempty:
  assumes "0 < d" "d \<le> 5" "0 < w" "0 < h"
  shows "\<exists>p ps. tile_grid w h (spacing_rat w h d) = p # ps"
proof -
  have wh: "0 < w \<or> 0 < h" using assms(3) by simp
  note st = tile_grid_steps[OF assms(1,2) wh]
  obtain x xs where xs: "grid_points (- of_nat w) (of_nat w * 2) (spacing_rat w h d) = x # xs"
    using st(1) assms(3)
    by (cases "grid_points (- of_nat w) (of_nat w * 2) (spacing_rat w h d)") simp_all
  obtain y ys where ys: "grid_points (- of_nat h) (of_nat h * 2) (spacing_rat w h d) = y # ys"
    using st(2) assms(4)
    by (cases "grid_points (- of_nat h) (of_nat h * 2) (spacing_rat w h d)") simp_all
  show ?thesis
    by (simp add: tile_grid_def rows_of_def xs ys)
qed

lemma tile_grid_nonempty':
  assumes "0 < d" "d \<le> 5" "0 < w" "0 < h"
  shows "tile_grid w h (spacing_rat w h d) \<noteq> []"
  using tile_grid_nonempty[OF assms] by auto

lemma composite_cong:
  assumes "signature s1 = signature s2" "signatureImage s1 = signatureImage s2"
    "opacity s1 = opacity s2" "angle s1 = angle s2" "density s1 = density s2"
    "fontSize s1 = fontSize s2" "textColor s1 = textColor s2"
    "signatureSize s1 = signatureSize s2"
  shows "composite s1 im = composite s2 im"
  unfolding composite_def text_tiles_def raster_tiles_def text_state_def tile_state_def
    text_fill_def assms ..

lemma composite_positions:
  "map op_position (cv_ops (composite s im)) =
     Some (Num 0, Num 0) #
     map (\<lambda>(x, y). Some (Num x, Num y))
       ((if signature s = [] then [] else
           tile_grid (img_width im) (img_height im)
             (spacing_rat (img_width im) (img_height im) (density s))) @
        (if signatureImage s = None then [] else
           tile_grid (img_width im) (img_height im)
             (spacing_rat (img_width im) (img_height im) (density s))))"
proof -
  have t: "map op_position (text_tiles s im) =
      map (\<lambda>(x, y). Some (Num x, Num y))
        (if signature s = [] then [] else
           tile_grid (img_width im) (img_height im)
             (spacing_rat (img_width im) (img_height im) (density s)))"
    by (simp add: text_tiles_def comp_def case_prod_beta)
  have r: "map op_position (raster_tiles s im) =
      map (\<lambda>(x, y). Some (Num x, Num y))
        (if signatureImage s = None then [] else
           tile_grid (img_width im) (img_height im)
             (spacing_rat (img_width im) (img_height im) (density s)))"
    by (cases "signatureImage s") (simp_all add: raster_tiles_def comp_def case_prod_beta)
  show ?thesis
    by (simp only: composite_def canvas.simps list.map map_append t r base_op_def op_position.simps)
qed

lemma composite_length:
  "length (cv_ops (composite s im)) =
     1 + ((if signature s = [] then 0 else 1) + (if signatureImage s = None then 0 else 1)) *
         length (tile_grid (img_width im) (img_height im)
             (spacing_rat (img_width im) (img_height im) (density s)))"
  by (cases "signatureImage s") (simp_all add: composite_def text_tiles_def raster_tiles_def)

lemma sized_calls:
  "filter (\<lambda>op. tile_size op \<noteq> None) (cv_ops (composite s im)) = raster_tiles s im"
proof -
  define P where "P = (\<lambda>op. tile_size op \<noteq> None)"
  have p1: "\<not> P (base_op im)" by (simp add: P_def base_op_def)
  have p2: "filter P (text_tiles s im) = []"
    by (simp add: P_def text_tiles_def filter_empty_conv case_prod_beta)
  have p3: "filter P (raster_tiles s im) = raster_tiles s im"
    by (cases "signatureImage s")
       (simp_all add: P_def raster_tiles_def filter_id_conv case_prod_beta)
  have "filter P (cv_ops (composite s im)) = raster_tiles s im"
    by (simp add: composite_def p1 p2 p3)
  then show ?thesis unfolding P_def .
qed

lemma canvas_is_reset:
  "set_height h (set_width w cv) =
     \<lparr>cv_width = w, cv_height = h, cv_ops = [], cv_state = default_state, cv_stack = []\<rparr>"
  by (simp add: set_height_def set_width_def)

lemma render_watermark_cong:
  assumes "signature s1 = signature s2" "signatureImage s1 = signatureImage s2"
    "opacity s1 = opacity s2" "angle s1 = angle s2" "density s1 = density s2"
    "fontSize s1 = fontSize s2" "textColor s1 = textColor s2"
    "signatureSize s1 = signatureSize s2"
  shows "render_watermark s1 im c1 = render_watermark s2 im c2"
  unfolding render_watermark_def canvas_is_reset assms ..

section \<open>The callback, when its timer fires\<close>

lemma timer_callback_runs:
  assumes "image_s captured = Some im" "canvasRef current = Some cv"
    and "0 < density captured" "density captured \<le> 5" "0 < img_width im \<or> 0 < img_height im"
  shows "timer_callback env captured current =
     Some (current\<lparr>canvasRef := Some (composite captured im),
                   watermarkedImage := Some (toDataURL env (composite captured im)),
                   isProcessing := False\<rparr>)"
  by (simp add: timer_callback_def assms(1,2) render_watermark_eq[OF assms(3-5)])

lemma labels_start: "concat (map op_label ops) \<noteq> CHR ''b'' # r"
proof (cases ops)
  case Nil
  then show ?thesis by simp
next
  case (Cons op rest)
  then show ?thesis by (cases op) simp_all
qed

lemma typed_urls_differ:
  "toDataURL failing_encoder_browser (composite typed_a sample_base)
     \<noteq> toDataURL failing_encoder_browser (composite typed_ab sample_base)"
proof -
  obtain p ps where g: "tile_grid 2 1 (spacing_rat 2 1 3) = p # ps"
    using tile_grid_nonempty[of 3 2 1] by auto
  define ra where "ra = map (\<lambda>(x, y). FillText ''a'' (Num x) (Num y) (text_state typed_a)) ps
      @ raster_tiles typed_a sample_base"
  define rb where "rb = map (\<lambda>(x, y). FillText ''ab'' (Num x) (Num y) (text_state typed_ab)) ps
      @ raster_tiles typed_ab sample_base"
  have "text_tiles typed_a sample_base
      = map (\<lambda>(x, y). FillText ''a'' (Num x) (Num y) (text_state typed_a)) (p # ps)"
    unfolding g[symmetric] by (simp add: text_tiles_def typed_a_def initial_state_def sample_base_def)
  then have a: "cv_ops (composite typed_a sample_base)
      = base_op sample_base # FillText ''a'' (Num (fst p)) (Num (snd p)) (text_state typed_a) # ra"
    by (simp add: composite_def ra_def case_prod_beta)
  have "text_tiles typed_ab sample_base
      = map (\<lambda>(x, y). FillText ''ab'' (Num x) (Num y) (text_state typed_ab)) (p # ps)"
    unfolding g[symmetric] by (simp add: text_tiles_def typed_ab_def initial_state_def sample_base_def)
  then have b: "cv_ops (composite typed_ab sample_base)
      = base_op sample_base # FillText ''ab'' (Num (fst p)) (Num (snd p)) (text_state typed_ab) # rb"
    by (simp add: composite_def rb_def case_prod_beta)
  have dims: "cv_width (composite typed_a sample_base) = cv_width (composite typed_ab sample_base)"
    "cv_height (composite typed_a sample_base) = cv_height (composite typed_ab sample_base)"
    by (simp_all add: composite_def)
  show ?thesis
    by (simp add: failing_encoder_browser_def a b dims base_op_def labels_start)
qed

section \<open>Dimensions of the result\<close>

text \<open>
  C1. For a base image of positive width and height, a text or a raster signature (or both)
  and a density from 1 to 5, the range of the slider, the callback of the effect ends and
  stores the export of a canvas whose width and height are those of the base image. The
  tiling loops step in doubles: at these densities every step advances the loop variable,
  so both loops end.
\<close>

theorem composite_has_base_dimensions:
  assumes "image_s s = Some im" and "canvasRef s = Some cv"
    and "0 < img_width im" and "0 < img_height im"
    and "signature s \<noteq> [] \<or> signatureImage s \<noteq> None"
    and "0 < density s" and "density s \<le> 5"
  shows "\<exists>out. watermark_effect env s =
            Some (s\<lparr>canvasRef := Some out, watermarkedImage := Some (toDataURL env out),
                    isProcessing := False\<rparr>)
          \<and> cv_width out = img_width im \<and> cv_height out = img_height im"
proof -
  have "watermark_effect env s =
     Some (s\<lparr>canvasRef := Some (composite s im),
             watermarkedImage := Some (toDataURL env (composite s im)),
             isProcessing := False\<rparr>)"
    using assms by (intro watermark_effect_runs) auto
  moreover have "cv_width (composite s im) = img_width im" "cv_height (composite s im) = img_height im"
    by (simp_all add: composite_def)
  ultimately show ?thesis by blast
qed

theorem composite_has_base_dimensions_witness:
  "\<exists>out. watermark_effect failing_encoder_browser text_sample =
            Some (text_sample\<lparr>canvasRef := Some out,
                    watermarkedImage := Some (toDataURL failing_encoder_browser out),
                    isProcessing := False\<rparr>)
          \<and> cv_width out = 2 \<and> cv_height out = 1"
  using composite_has_base_dimensions[of text_sample sample_base new_canvas failing_encoder_browser]
  by (simp add: text_sample_def sample_base_def initial_state_def)

section \<open>The text grid\<close>

text \<open>
  C2, as the code has it. With a text signature the callback draws the base image and then
  the text at \<open>(x, y)\<close> for every \<open>y\<close> of the outer loop and, within it, every \<open>x\<close> of the
  inner loop. The values of a loop variable are the doubles \<open>xs\<close> (and \<open>ys\<close>) got from
  \<open>-width\<close> (\<open>-height\<close>) by adding the spacing again and again, each sum rounded, as long
  as the variable is below \<open>2 * width\<close> (\<open>2 * height\<close>); the spacing is the double nearest
  to \<open>max(width, height) / density\<close>. For 800 by 600 at density 3 the spacing is the double
  nearest to \<open>800 / 3\<close>, about 266.67.
\<close>

theorem text_is_drawn_on_grid:
  assumes "image_s s = Some im" and "canvasRef s = Some cv"
    and "0 < img_width im" and "0 < img_height im"
    and "0 < density s" and "density s \<le> 5"
    and "signature s \<noteq> []"
  shows "\<exists>out sp xs ys.
      map_option canvasRef (watermark_effect env s) = Some (Some out)
    \<and> spacing_of (img_width im) (img_height im) (density s) = Num sp
    \<and> sp = fl (of_nat (max (img_width im) (img_height im)) / of_int (density s))
    \<and> is_steps (- of_nat (img_width im)) (of_nat (img_width im) * 2) sp xs
    \<and> is_steps (- of_nat (img_height im)) (of_nat (img_height im) * 2) sp ys
    \<and> cv_ops out =
        base_op im #
        map (\<lambda>(x, y). FillText (signature s) (Num x) (Num y) (text_state s)) (rows_of xs ys) @
        raster_tiles s im
    \<and> spacing_of 800 600 3 = Num (4691249611844267 / 17592186044416)
    \<and> \<bar>4691249611844267 / 17592186044416 - 800 / (3::rat)\<bar> < 1 / 10 ^ 12"
proof -
  define sp where "sp = spacing_rat (img_width im) (img_height im) (density s)"
  have wh: "0 < img_width im \<or> 0 < img_height im" using assms(3) by simp
  note steps = tile_grid_steps[OF assms(5,6) wh, folded sp_def]
  have run: "watermark_effect env s =
     Some (s\<lparr>canvasRef := Some (composite s im),
             watermarkedImage := Some (toDataURL env (composite s im)),
             isProcessing := False\<rparr>)"
    using assms by (intro watermark_effect_runs) auto
  have "map_option canvasRef (watermark_effect env s) = Some (Some (composite s im))"
    unfolding run by simp
  moreover have "spacing_of (img_width im) (img_height im) (density s) = Num sp"
    using assms(5) by (simp add: spacing_of_eq sp_def)
  moreover have "sp = fl (of_nat (max (img_width im) (img_height im)) / of_int (density s))"
    by (simp add: sp_def spacing_rat_def)
  moreover have "cv_ops (composite s im) =
        base_op im #
        map (\<lambda>(x, y). FillText (signature s) (Num x) (Num y) (text_state s))
          (rows_of (grid_points (- of_nat (img_width im)) (of_nat (img_width im) * 2) sp)
                   (grid_points (- of_nat (img_height im)) (of_nat (img_height im) * 2) sp)) @
        raster_tiles s im"
    using assms(7) by (simp add: composite_def text_tiles_def tile_grid_def sp_def)
  moreover have "spacing_of 800 600 3 = Num (4691249611844267 / 17592186044416)"
    by (simp add: spacing_of_eq spacing_800_600)
  moreover have "\<bar>4691249611844267 / 17592186044416 - 800 / (3::rat)\<bar> < 1 / 10 ^ 12"
    by simp
  ultimately show ?thesis using steps by blast
qed

theorem text_is_drawn_on_grid_witness:
  "\<exists>out. map_option canvasRef (watermark_effect failing_encoder_browser text_sample)
             = Some (Some out)
     \<and> cv_ops out =
         base_op sample_base #
         map (\<lambda>(x, y). FillText ''Jane Doe'' (Num x) (Num y) (text_state text_sample))
           (rows_of [- 2, - (3002399751580331 / 2251799813685248), - (6004799503160663 / 9007199254740992), - (1 / 4503599627370496), 6004799503160659 / 9007199254740992, 1501199875790165 / 1125899906842624, 4503599627370495 / 2251799813685248, 1501199875790165 / 562949953421312, 7505999378950825 / 2251799813685248, 4503599627370495 / 1125899906842624] [- 1, - (3002399751580331 / 9007199254740992), 1501199875790165 / 4503599627370496, 9007199254740991 / 9007199254740992, 3752999689475413 / 2251799813685248])
     \<and> length (cv_ops out) = 51"
proof -
  have h: "image_s text_sample = Some sample_base" "canvasRef text_sample = Some new_canvas"
    "0 < img_width sample_base" "0 < img_height sample_base"
    "0 < density text_sample" "density text_sample \<le> 5" "signature text_sample \<noteq> []"
    by (simp_all add: text_sample_def initial_state_def sample_base_def)
  obtain out sp xs ys where
    out: "map_option canvasRef (watermark_effect failing_encoder_browser text_sample)
             = Some (Some out)"
    and sp: "sp = fl (of_nat (max (img_width sample_base) (img_height sample_base))
                  / of_int (density text_sample))"
    and xs: "is_steps (- of_nat (img_width sample_base)) (of_nat (img_width sample_base) * 2) sp xs"
    and ys: "is_steps (- of_nat (img_height sample_base)) (of_nat (img_height sample_base) * 2) sp ys"
    and ops: "cv_ops out =
        base_op sample_base #
        map (\<lambda>(x, y). FillText (signature text_sample) (Num x) (Num y) (text_state text_sample))
          (rows_of xs ys) @
        raster_tiles text_sample sample_base"
    using text_is_drawn_on_grid[OF h, of failing_encoder_browser] by blast
  have "sp = spacing_rat 2 1 3"
    unfolding sp spacing_rat_def by (simp add: text_sample_def initial_state_def sample_base_def)
  then have spv: "sp = 6004799503160661 / 9007199254740992"
    by (simp only: sample_spacing)
  have "is_steps (- 2) 4 (6004799503160661 / 9007199254740992) xs"
    using xs unfolding spv by (simp add: sample_base_def)
  then have x: "xs = [- 2, - (3002399751580331 / 2251799813685248), - (6004799503160663 / 9007199254740992), - (1 / 4503599627370496), 6004799503160659 / 9007199254740992, 1501199875790165 / 1125899906842624, 4503599627370495 / 2251799813685248, 1501199875790165 / 562949953421312, 7505999378950825 / 2251799813685248, 4503599627370495 / 1125899906842624]"
    by (rule is_steps_unique[OF _ sample_columns])
  have "is_steps (- 1) 2 (6004799503160661 / 9007199254740992) ys"
    using ys unfolding spv by (simp add: sample_base_def)
  then have y: "ys = [- 1, - (3002399751580331 / 9007199254740992), 1501199875790165 / 4503599627370496, 9007199254740991 / 9007199254740992, 3752999689475413 / 2251799813685248]"
    by (rule is_steps_unique[OF _ sample_rows])
  have r: "raster_tiles text_sample sample_base = []" "signature text_sample = ''Jane Doe''"
    by (simp_all add: raster_tiles_def text_sample_def initial_state_def)
  have o: "cv_ops out =
         base_op sample_base #
         map (\<lambda>(x, y). FillText ''Jane Doe'' (Num x) (Num y) (text_state text_sample))
           (rows_of [- 2, - (3002399751580331 / 2251799813685248), - (6004799503160663 / 9007199254740992), - (1 / 4503599627370496), 6004799503160659 / 9007199254740992, 1501199875790165 / 1125899906842624, 4503599627370495 / 2251799813685248, 1501199875790165 / 562949953421312, 7505999378950825 / 2251799813685248, 4503599627370495 / 1125899906842624] [- 1, - (3002399751580331 / 9007199254740992), 1501199875790165 / 4503599627370496, 9007199254740991 / 9007199254740992, 3752999689475413 / 2251799813685248])"
    using ops unfolding x y r by simp
  moreover have "length (cv_ops out) = 51"
    unfolding o by (simp add: rows_of_length)
  ultimately show ?thesis using out by blast
qed

text \<open>The spacing that the compositor computes for 800 by 600 at density 3 is not 200.\<close>

theorem spacing_800_600_counterexample: "spacing_of 800 600 3 \<noteq> Num 200"
  by (simp add: spacing_of_eq spacing_800_600)

section \<open>The size of a raster tile\<close>

text \<open>
  C3. With a raster signature of positive dimensions, every \<^verbatim>\<open>drawImage\<close> call that
  is given a size, and these are the calls that draw the signature, of which there is at
  least one, gets the same width and height: the width is
  \<^verbatim>\<open>(canvas.width * signatureSize) / 100\<close> and the height is the width divided by
  \<^verbatim>\<open>signatureImage.width / signatureImage.height\<close>, every product and quotient rounded
  to a double as JavaScript computes it. With a size of 100 on a base 800 wide and a
  signature of 200 by 100 the width is 800 and the height is 400, with no rounding error.
\<close>

theorem raster_tile_size:
  assumes "image_s s = Some im" and "canvasRef s = Some cv"
    and "0 < img_width im" and "0 < img_height im"
    and "0 < density s" and "density s \<le> 5"
    and "signatureImage s = Some si" and "0 < img_width si" and "0 < img_height si"
  shows "\<exists>out width height ps st.
      map_option canvasRef (watermark_effect env s) = Some (Some out)
    \<and> width = fl (fl (of_nat (img_width im) * of_int (signatureSize s)) / 100)
    \<and> height = fl (width / fl (of_nat (img_width si) / of_nat (img_height si)))
    \<and> ps \<noteq> []
    \<and> filter (\<lambda>op. tile_size op \<noteq> None) (cv_ops out) =
        map (\<lambda>(x, y). DrawImage si (Num x) (Num y) (Some (Num width, Num height)) st) ps
    \<and> tile_width 800 100 = Num 800
    \<and> tile_height 800 100 \<lparr>img_width = 200, img_height = 100, img_src = src\<rparr> = Num 400"
proof -
  define width where "width = fl (fl (of_nat (img_width im) * of_int (signatureSize s)) / 100)"
  define ratio where "ratio = fl (rat_of_nat (img_width si) / of_nat (img_height si))"
  define height where "height = fl (width / ratio)"
  have run: "watermark_effect env s =
     Some (s\<lparr>canvasRef := Some (composite s im),
             watermarkedImage := Some (toDataURL env (composite s im)),
             isProcessing := False\<rparr>)"
    using assms by (intro watermark_effect_runs) auto
  have w: "tile_width (img_width im) (signatureSize s) = Num width"
    by (simp add: tile_width_def width_def)
  have "0 < rat_of_nat (img_width si) / of_nat (img_height si)"
    using assms(8,9) by simp
  then have "0 < ratio" unfolding ratio_def by (rule fl_positive)
  then have h: "tile_height (img_width im) (signatureSize s) si = Num height"
    using assms(9) by (simp add: tile_height_def tile_ratio_def w height_def ratio_def)
  have "map_option canvasRef (watermark_effect env s) = Some (Some (composite s im))"
    unfolding run by simp
  moreover have "filter (\<lambda>op. tile_size op \<noteq> None) (cv_ops (composite s im)) =
        map (\<lambda>(x, y). DrawImage si (Num x) (Num y) (Some (Num width, Num height))
               (if signature s = [] then tile_state s else text_state s))
          (tile_grid (img_width im) (img_height im)
             (spacing_rat (img_width im) (img_height im) (density s)))"
    unfolding sized_calls by (simp add: raster_tiles_def assms(7) w h)
  moreover have "tile_grid (img_width im) (img_height im)
             (spacing_rat (img_width im) (img_height im) (density s)) \<noteq> []"
    using assms(3-6) by (intro tile_grid_nonempty') simp_all
  moreover have "tile_width 800 100 = Num 800"
    "tile_height 800 100 \<lparr>img_width = 200, img_height = 100, img_src = src\<rparr> = Num 400"
    by (simp_all add: tile_width_def tile_height_def tile_ratio_def fl_small_numbers)
  ultimately show ?thesis
    unfolding width_def[symmetric] height_def[symmetric] ratio_def[symmetric]
    by (auto simp: height_def ratio_def width_def)
qed

theorem raster_tile_size_witness:
  "\<exists>out ps. map_option canvasRef (watermark_effect failing_encoder_browser raster_sample)
             = Some (Some out)
     \<and> length ps = 50
     \<and> filter (\<lambda>op. tile_size op \<noteq> None) (cv_ops out) =
         map (\<lambda>(x, y). DrawImage sample_signature (Num x) (Num y) (Some (Num 2, Num 1))
                (tile_state raster_sample)) ps"
proof -
  have h: "image_s raster_sample = Some sample_base" "canvasRef raster_sample = Some new_canvas"
    "0 < img_width sample_base" "0 < img_height sample_base"
    "0 < density raster_sample" "density raster_sample \<le> 5"
    "signatureImage raster_sample = Some sample_signature"
    "0 < img_width sample_signature" "0 < img_height sample_signature"
    by (simp_all add: raster_sample_def initial_state_def sample_base_def sample_signature_def)
  obtain out width height ps st where
    out: "map_option canvasRef (watermark_effect failing_encoder_browser raster_sample)
             = Some (Some out)"
    and wd: "width = fl (fl (of_nat (img_width sample_base) * of_int (signatureSize raster_sample)) / 100)"
    and ht: "height = fl (width / fl (of_nat (img_width sample_signature) / of_nat (img_height sample_signature)))"
    and calls: "filter (\<lambda>op. tile_size op \<noteq> None) (cv_ops out) =
        map (\<lambda>(x, y). DrawImage sample_signature (Num x) (Num y) (Some (Num width, Num height)) st) ps"
    using raster_tile_size[OF h, of failing_encoder_browser] by blast
  have w2: "width = 2"
    unfolding wd by (simp add: raster_sample_def initial_state_def sample_base_def fl_small_numbers)
  have h1: "height = 1"
    unfolding ht w2 by (simp add: sample_signature_def fl_small_numbers)
  have o: "map_option canvasRef (watermark_effect failing_encoder_browser raster_sample)
      = Some (Some (composite raster_sample sample_base))"
    using watermark_effect_runs[of raster_sample sample_base new_canvas failing_encoder_browser] h
    by simp
  have out_eq: "out = composite raster_sample sample_base"
    using out o by simp
  have r: "raster_tiles raster_sample sample_base =
      map (\<lambda>(x, y). DrawImage sample_signature (Num x) (Num y)
             (Some (tile_width 2 100, tile_height 2 100 sample_signature))
             (tile_state raster_sample))
        (tile_grid 2 1 (spacing_rat 2 1 3))"
    by (simp add: raster_tiles_def raster_sample_def initial_state_def sample_base_def)
  have sz: "tile_width 2 100 = Num 2" "tile_height 2 100 sample_signature = Num 1"
    by (simp_all add: tile_width_def tile_height_def tile_ratio_def sample_signature_def
        fl_small_numbers)
  have "filter (\<lambda>op. tile_size op \<noteq> None) (cv_ops out) =
         map (\<lambda>(x, y). DrawImage sample_signature (Num x) (Num y) (Some (Num 2, Num 1))
                (tile_state raster_sample)) (tile_grid 2 1 (spacing_rat 2 1 3))"
    unfolding out_eq sized_calls r sz ..
  moreover have "length (tile_grid 2 1 (spacing_rat 2 1 3)) = 50"
    by (rule sample_tile_count)
  ultimately show ?thesis using out by blast
qed

section \<open>No signature\<close>

text \<open>
  C4, as the code has it. With neither a text nor a raster signature the effect returns at
  its guard, without error: it schedules no callback, draws nothing and stores nothing, so
  the state, and with it the stored watermarked image, is what it was. No image is
  returned: the base image is not made the result.
\<close>

theorem no_signature_is_skipped:
  assumes "signature s = []" and "signatureImage s = None"
  shows "watermark_effect env s = Some s"
  using assms by (rule watermark_effect_skips)

theorem no_signature_is_skipped_witness:
  "watermark_effect failing_encoder_browser unsigned_sample = Some unsigned_sample"
  using no_signature_is_skipped[of unsigned_sample failing_encoder_browser]
  by (simp add: unsigned_sample_def initial_state_def)

text \<open>
  With the base image loaded and no signature, the stored result after the effect is
  \<^verbatim>\<open>null\<close>, not the base image.
\<close>

theorem no_signature_counterexample:
  "image_s unsigned_sample = Some sample_base
   \<and> map_option watermarkedImage (watermark_effect failing_encoder_browser unsigned_sample)
       = Some None"
  by (simp add: watermark_effect_def unsigned_sample_def initial_state_def)

section \<open>The export falls back on the composite\<close>

text \<open>
  C5. If the steganographic \<^verbatim>\<open>encode\<close> throws on the pixels of the stored composite,
  \<^verbatim>\<open>applySteganography\<close> resolves to the URL it was given, and the download that
  \<^verbatim>\<open>handleVerifiedDownload\<close> offers is that unencoded composite. With the encoder of
  \<open>failing_encoder_browser\<close>, which always throws, the export is the plain composite.
\<close>

theorem export_falls_back_when_encode_fails:
  assumes "watermarkedImage s = Some url" and "loadImage env url = Some im"
    and "getImageData env (steg_canvas im) = Inr d"
    and "encode env (hiddenMessage env) d = Inl err"
  shows "applySteganography env url = Some url
       \<and> map_option dl_href (handleVerifiedDownload env s) = Some url"
  using assms by (simp add: applySteganography_def handleVerifiedDownload_def option.map_comp comp_def)

theorem export_falls_back_when_encode_fails_witness:
  "\<exists>s'. watermark_effect failing_encoder_browser text_sample = Some s'
      \<and> watermarkedImage s'
          = Some (toDataURL failing_encoder_browser (composite text_sample sample_base))
      \<and> map_option dl_href (handleVerifiedDownload failing_encoder_browser s')
          = Some (toDataURL failing_encoder_browser (composite text_sample sample_base))"
proof -
  define url where "url = toDataURL failing_encoder_browser (composite text_sample sample_base)"
  define s' where "s' = text_sample\<lparr>canvasRef := Some (composite text_sample sample_base),
      watermarkedImage := Some url, isProcessing := False\<rparr>"
  have run: "watermark_effect failing_encoder_browser text_sample = Some s'"
    unfolding s'_def url_def
    by (rule watermark_effect_runs[where cv = new_canvas])
       (simp_all add: text_sample_def initial_state_def sample_base_def)
  have stored: "watermarkedImage s' = Some url"
    by (simp add: s'_def)
  have loaded: "loadImage failing_encoder_browser url
      = Some \<lparr>img_width = 2, img_height = 1, img_src = url\<rparr>"
    by (simp add: failing_encoder_browser_def)
  have pixels: "getImageData failing_encoder_browser
       (steg_canvas \<lparr>img_width = 2, img_height = 1, img_src = url\<rparr>)
      = Inr \<lparr>id_width = 2, id_height = 1, id_data = []\<rparr>"
    by (simp add: failing_encoder_browser_def steg_canvas_def ctx_drawImage_def set_height_def
        set_width_def)
  have thrown: "encode failing_encoder_browser (hiddenMessage failing_encoder_browser)
       \<lparr>id_width = 2, id_height = 1, id_data = []\<rparr> = Inl ''Error: message too long''"
    by (simp add: failing_encoder_browser_def)
  show ?thesis
    using run stored export_falls_back_when_encode_fails[OF stored loaded pixels thrown]
    unfolding url_def by blast
qed

section \<open>Text and raster signature together\<close>

text \<open>
  C6, as the code has it. The two signatures are independent pieces of state. In every
  state, setting the text leaves the raster signature as it is, and setting or removing the
  raster signature leaves the text as it is: none, one or both can be set. For a base image
  of positive dimensions and a density from 1 to 5: with neither signature the effect
  returns at its guard; with one or both the callback draws the base image, then the text
  tiles if the text is not empty, then the raster tiles if a raster signature is set, both
  at the same positions, of which there is at least one.
\<close>

theorem signatures_are_independent:
  "signatureImage (handle (SetSignature t) s0) = signatureImage s0
   \<and> signature (handle (SetSignatureImage si') s0) = signature s0
   \<and> signature (handle RemoveSignatureImage s0) = signature s0
   \<and> (image_s s = Some im \<and> canvasRef s = Some cv
        \<and> 0 < img_width im \<and> 0 < img_height im \<and> 0 < density s \<and> density s \<le> 5
      \<longrightarrow> (signature s = [] \<and> signatureImage s = None \<longrightarrow> watermark_effect env s = Some s)
        \<and> (signature s \<noteq> [] \<or> signatureImage s \<noteq> None \<longrightarrow>
             (\<exists>out ps. map_option canvasRef (watermark_effect env s) = Some (Some out)
                \<and> ps \<noteq> []
                \<and> cv_ops out =
                    base_op im #
                    (if signature s = [] then []
                     else map (\<lambda>(x, y). FillText (signature s) (Num x) (Num y) (text_state s)) ps) @
                    (case signatureImage s of
                       None \<Rightarrow> []
                     | Some si \<Rightarrow>
                         map (\<lambda>(x, y). DrawImage si (Num x) (Num y)
                                (Some (tile_width (img_width im) (signatureSize s),
                                       tile_height (img_width im) (signatureSize s) si))
                                (if signature s = [] then tile_state s else text_state s)) ps))))"
proof -
  have "\<exists>out ps. map_option canvasRef (watermark_effect env s) = Some (Some out)
                \<and> ps \<noteq> []
                \<and> cv_ops out =
                    base_op im #
                    (if signature s = [] then []
                     else map (\<lambda>(x, y). FillText (signature s) (Num x) (Num y) (text_state s)) ps) @
                    (case signatureImage s of
                       None \<Rightarrow> []
                     | Some si \<Rightarrow>
                         map (\<lambda>(x, y). DrawImage si (Num x) (Num y)
                                (Some (tile_width (img_width im) (signatureSize s),
                                       tile_height (img_width im) (signatureSize s) si))
                                (if signature s = [] then tile_state s else text_state s)) ps)"
    if h: "image_s s = Some im" "canvasRef s = Some cv" "0 < img_width im" "0 < img_height im"
      "0 < density s" "density s \<le> 5" "signature s \<noteq> [] \<or> signatureImage s \<noteq> None"
  proof -
    have run: "watermark_effect env s =
       Some (s\<lparr>canvasRef := Some (composite s im),
               watermarkedImage := Some (toDataURL env (composite s im)),
               isProcessing := False\<rparr>)"
      using h by (intro watermark_effect_runs) auto
    have "map_option canvasRef (watermark_effect env s) = Some (Some (composite s im))"
      unfolding run by simp
    moreover have "tile_grid (img_width im) (img_height im)
             (spacing_rat (img_width im) (img_height im) (density s)) \<noteq> []"
      using h(3-6) by (intro tile_grid_nonempty') simp_all
    moreover have "cv_ops (composite s im) =
        base_op im #
        (if signature s = [] then []
         else map (\<lambda>(x, y). FillText (signature s) (Num x) (Num y) (text_state s))
                (tile_grid (img_width im) (img_height im)
                   (spacing_rat (img_width im) (img_height im) (density s)))) @
        (case signatureImage s of
           None \<Rightarrow> []
         | Some si \<Rightarrow>
             map (\<lambda>(x, y). DrawImage si (Num x) (Num y)
                    (Some (tile_width (img_width im) (signatureSize s),
                           tile_height (img_width im) (signatureSize s) si))
                    (if signature s = [] then tile_state s else text_state s))
               (tile_grid (img_width im) (img_height im)
                  (spacing_rat (img_width im) (img_height im) (density s))))"
      by (simp add: composite_def text_tiles_def raster_tiles_def)
    ultimately show ?thesis by blast
  qed
  moreover have "watermark_effect env s = Some s" if "signature s = []" "signatureImage s = None"
    using that by (rule watermark_effect_skips)
  ultimately show ?thesis by simp
qed

theorem signatures_are_independent_witness:
  "\<exists>out ps. map_option canvasRef (watermark_effect failing_encoder_browser both_sample)
             = Some (Some out)
     \<and> cv_ops out =
         base_op sample_base #
         map (\<lambda>(x, y). FillText ''Jane Doe'' (Num x) (Num y) (text_state both_sample)) ps @
         map (\<lambda>(x, y). DrawImage sample_signature (Num x) (Num y)
                (Some (tile_width 2 100, tile_height 2 100 sample_signature))
                (text_state both_sample)) ps
     \<and> ps \<noteq> [] \<and> length (cv_ops out) = 101"
proof -
  have h: "image_s both_sample = Some sample_base \<and> canvasRef both_sample = Some new_canvas
        \<and> 0 < img_width sample_base \<and> 0 < img_height sample_base
        \<and> 0 < density both_sample \<and> density both_sample \<le> 5"
    and g: "signature both_sample \<noteq> [] \<or> signatureImage both_sample \<noteq> None"
    by (simp_all add: both_sample_def initial_state_def sample_base_def)
  have v: "signature both_sample = ''Jane Doe''" "signatureImage both_sample = Some sample_signature"
    "img_width sample_base = 2" "img_height sample_base = 1" "signatureSize both_sample = 100"
    "density both_sample = 3"
    by (simp_all add: both_sample_def initial_state_def sample_base_def)
  from signatures_are_independent[of "[]" both_sample sample_signature both_sample sample_base
      new_canvas failing_encoder_browser] h g
  obtain out ps where out: "map_option canvasRef (watermark_effect failing_encoder_browser both_sample)
             = Some (Some out)" and ps: "ps \<noteq> []"
    and ops: "cv_ops out =
        base_op sample_base #
        (if signature both_sample = [] then []
         else map (\<lambda>(x, y). FillText (signature both_sample) (Num x) (Num y) (text_state both_sample)) ps) @
        (case signatureImage both_sample of
           None \<Rightarrow> []
         | Some si \<Rightarrow>
             map (\<lambda>(x, y). DrawImage si (Num x) (Num y)
                    (Some (tile_width (img_width sample_base) (signatureSize both_sample),
                           tile_height (img_width sample_base) (signatureSize both_sample) si))
                    (if signature both_sample = [] then tile_state both_sample
                     else text_state both_sample)) ps)"
    by blast
  have "map_option canvasRef (watermark_effect failing_encoder_browser both_sample)
      = Some (Some (composite both_sample sample_base))"
    using watermark_effect_runs[of both_sample sample_base new_canvas failing_encoder_browser] h g
    by simp
  then have same: "out = composite both_sample sample_base"
    using out by simp
  have "length (cv_ops (composite both_sample sample_base)) = 101"
    unfolding composite_length v sample_tile_count by simp
  then have "length (cv_ops out) = 101"
    unfolding same .
  then show ?thesis
    using out ps ops unfolding v by (intro exI[of _ out] exI[of _ ps]) simp
qed

text \<open>Typing a text and then uploading a raster signature leaves both set.\<close>

theorem both_signatures_counterexample:
  "map_option typed_text
     (timed_run failing_encoder_browser
        [User (SetSignature ''Jane Doe''), User (SetSignatureImage sample_signature)] mounted)
     = Some ''Jane Doe''
   \<and> map_option uploaded_raster
     (timed_run failing_encoder_browser
        [User (SetSignature ''Jane Doe''), User (SetSignatureImage sample_signature)] mounted)
     = Some (Some sample_signature)"
  by (simp add: timed_step_def Let_def effect_scheduled_def mounted_def initial_state_def
      typed_text_def uploaded_raster_def)

section \<open>Determinism\<close>

text \<open>
  C7. The stored image depends on the base image, the two signatures and the seven
  parameters only: two states that agree on them get the same result from the callback,
  whatever their canvases held before and whatever was stored before, and for a density
  from 1 to 5 and positive dimensions that result is the export of the composite. The
  export itself, \<^verbatim>\<open>toDataURL\<close>, is the browser's and is taken as a function of the
  canvas.
\<close>

theorem compositing_is_deterministic:
  assumes "image_s s1 = Some im" and "image_s s2 = Some im"
    and "canvasRef s1 = Some c1" and "canvasRef s2 = Some c2"
    and "signature s1 = signature s2" and "signatureImage s1 = signatureImage s2"
    and "opacity s1 = opacity s2" and "angle s1 = angle s2" and "density s1 = density s2"
    and "fontSize s1 = fontSize s2" and "textColor s1 = textColor s2"
    and "signatureSize s1 = signatureSize s2"
    and "signature s1 \<noteq> [] \<or> signatureImage s1 \<noteq> None"
  shows "map_option watermarkedImage (watermark_effect env s1)
           = map_option watermarkedImage (watermark_effect env s2)
       \<and> map_option canvasRef (watermark_effect env s1)
           = map_option canvasRef (watermark_effect env s2)
       \<and> (0 < density s1 \<and> density s1 \<le> 5 \<and> 0 < img_width im \<and> 0 < img_height im
            \<longrightarrow> map_option watermarkedImage (watermark_effect env s1)
                  = Some (Some (toDataURL env (composite s1 im))))"
proof -
  have r: "render_watermark s1 im c1 = render_watermark s2 im c2"
    using assms(5-12) by (rule render_watermark_cong)
  have second: "\<not> (signature s2 = [] \<and> signatureImage s2 = None)"
    using assms(5,6,13) by auto
  have first: "\<not> (signature s1 = [] \<and> signatureImage s1 = None)"
    using assms(13) by auto
  have run1: "watermark_effect env s1 = Option.bind (render_watermark s2 im c2)
      (\<lambda>cv'. Some (s1\<lparr>canvasRef := Some cv', watermarkedImage := Some (toDataURL env cv'),
                      isProcessing := False\<rparr>))"
    using first by (auto simp add: watermark_effect_def assms(1,3) r)
  have run2: "watermark_effect env s2 = Option.bind (render_watermark s2 im c2)
      (\<lambda>cv'. Some (s2\<lparr>canvasRef := Some cv', watermarkedImage := Some (toDataURL env cv'),
                      isProcessing := False\<rparr>))"
    using second by (auto simp add: watermark_effect_def assms(2,4))
  have "map_option watermarkedImage (watermark_effect env s1)
           = map_option watermarkedImage (watermark_effect env s2)"
    "map_option canvasRef (watermark_effect env s1)
           = map_option canvasRef (watermark_effect env s2)"
    unfolding run1 run2 by (cases "render_watermark s2 im c2"; simp)+
  moreover have "map_option watermarkedImage (watermark_effect env s1)
                  = Some (Some (toDataURL env (composite s1 im)))"
    if "0 < density s1" "density s1 \<le> 5" "0 < img_width im \<and> 0 < img_height im"
    using watermark_effect_runs[OF assms(1,3,13) that(1,2), of env] that(3) by simp
  ultimately show ?thesis by blast
qed

theorem compositing_is_deterministic_witness:
  "map_option watermarkedImage (watermark_effect failing_encoder_browser text_sample)
     = map_option watermarkedImage (watermark_effect failing_encoder_browser stale_sample)
   \<and> map_option watermarkedImage (watermark_effect failing_encoder_browser text_sample)
     = Some (Some (toDataURL failing_encoder_browser (composite text_sample sample_base)))
   \<and> canvasRef text_sample \<noteq> canvasRef stale_sample
   \<and> watermarkedImage text_sample \<noteq> watermarkedImage stale_sample"
proof -
  have inputs: "image_s text_sample = Some sample_base" "image_s stale_sample = Some sample_base"
    "canvasRef text_sample = Some new_canvas"
    "canvasRef stale_sample = Some (ctx_fillText ''old'' (Num 5) (Num 5) (ctx_rotate 1 new_canvas))"
    "signature text_sample = signature stale_sample"
    "signatureImage text_sample = signatureImage stale_sample"
    "opacity text_sample = opacity stale_sample" "angle text_sample = angle stale_sample"
    "density text_sample = density stale_sample" "fontSize text_sample = fontSize stale_sample"
    "textColor text_sample = textColor stale_sample"
    "signatureSize text_sample = signatureSize stale_sample"
    "signature text_sample \<noteq> [] \<or> signatureImage text_sample \<noteq> None"
    by (simp_all add: stale_sample_def text_sample_def initial_state_def)
  have pos: "0 < density text_sample \<and> density text_sample \<le> 5
      \<and> 0 < img_width sample_base \<and> 0 < img_height sample_base"
    by (simp add: text_sample_def initial_state_def sample_base_def)
  have differ: "canvasRef text_sample \<noteq> canvasRef stale_sample"
    "watermarkedImage text_sample \<noteq> watermarkedImage stale_sample"
    by (simp_all add: stale_sample_def text_sample_def initial_state_def ctx_fillText_def
        ctx_rotate_def new_canvas_def)
  show ?thesis
    using compositing_is_deterministic[OF inputs, of failing_encoder_browser] pos differ
    by blast
qed

section \<open>Spacing and density\<close>

text \<open>
  C8. For a base image of positive dimensions and two densities from 1 to 5, the spacing
  is the double nearest to \<open>max(width, height) / density\<close> and it is positive. The greater
  density gives a strictly smaller spacing, also after rounding, and at least as many
  drawing calls, the loops stepping in doubles. The angle has no part in it: with any
  other angle the tiles are drawn at the same coordinates of the rotated context.
\<close>

theorem spacing_and_density:
  assumes "image_s s = Some im" and "canvasRef s = Some cv"
    and "0 < img_width im" and "0 < img_height im"
    and "signature s \<noteq> [] \<or> signatureImage s \<noteq> None"
    and "0 < density s" and "density s < d'" and "d' \<le> 5"
  shows "\<exists>sp sp' out out'.
      spacing_of (img_width im) (img_height im) (density s) = Num sp
    \<and> sp = fl (of_nat (max (img_width im) (img_height im)) / of_int (density s))
    \<and> spacing_of (img_width im) (img_height im) d' = Num sp'
    \<and> sp' = fl (of_nat (max (img_width im) (img_height im)) / of_int d')
    \<and> 0 < sp \<and> 0 < sp' \<and> sp' < sp
    \<and> map_option canvasRef (watermark_effect env s) = Some (Some out)
    \<and> map_option canvasRef (watermark_effect env (s\<lparr>density := d'\<rparr>)) = Some (Some out')
    \<and> length (cv_ops out) \<le> length (cv_ops out')
    \<and> (\<forall>a. \<exists>turned.
          map_option canvasRef (watermark_effect env (s\<lparr>angle := a\<rparr>)) = Some (Some turned)
        \<and> map op_position (cv_ops turned) = map op_position (cv_ops out))"
proof -
  let ?w = "img_width im" and ?h = "img_height im"
  have d': "0 < d'" and d5: "density s \<le> 5" using assms(6-8) by simp_all
  have wh: "0 < ?w \<or> 0 < ?h" using assms(3) by simp
  have run: "watermark_effect env t =
     Some (t\<lparr>canvasRef := Some (composite t im),
             watermarkedImage := Some (toDataURL env (composite t im)),
             isProcessing := False\<rparr>)"
    if "image_s t = Some im" "canvasRef t = Some cv"
      "signature t \<noteq> [] \<or> signatureImage t \<noteq> None" "0 < density t" "density t \<le> 5" for t
    using that wh by (intro watermark_effect_runs)
  have "spacing_of ?w ?h (density s) = Num (spacing_rat ?w ?h (density s))"
    using assms(6) by (intro spacing_of_eq) simp
  moreover have "spacing_rat ?w ?h (density s) = fl (of_nat (max ?w ?h) / of_int (density s))"
    by (simp add: spacing_rat_def)
  moreover have "spacing_of ?w ?h d' = Num (spacing_rat ?w ?h d')"
    using d' by (intro spacing_of_eq) simp
  moreover have "spacing_rat ?w ?h d' = fl (of_nat (max ?w ?h) / of_int d')"
    by (simp add: spacing_rat_def)
  moreover have "0 < spacing_rat ?w ?h (density s)"
    using assms(6) wh by (rule spacing_rat_pos)
  moreover have p': "0 < spacing_rat ?w ?h d'"
    using d' wh by (rule spacing_rat_pos)
  moreover have lt: "spacing_rat ?w ?h d' < spacing_rat ?w ?h (density s)"
    using wh assms(6,7,8) by (rule spacing_rat_antimono)
  moreover have "map_option canvasRef (watermark_effect env s) = Some (Some (composite s im))"
    using run[of s] assms d5 by simp
  moreover have "map_option canvasRef (watermark_effect env (s\<lparr>density := d'\<rparr>))
      = Some (Some (composite (s\<lparr>density := d'\<rparr>) im))"
    using run[of "s\<lparr>density := d'\<rparr>"] assms d' by simp
  moreover have "length (cv_ops (composite s im)) \<le> length (cv_ops (composite (s\<lparr>density := d'\<rparr>) im))"
    unfolding composite_length
    using tile_grid_length_mono[OF assms(6) less_imp_le[OF assms(7)] assms(8) wh less_imp_le[OF lt]]
    by simp
  moreover have "\<exists>turned.
          map_option canvasRef (watermark_effect env (s\<lparr>angle := a\<rparr>)) = Some (Some turned)
        \<and> map op_position (cv_ops turned) = map op_position (cv_ops (composite s im))" for a
  proof -
    have "map_option canvasRef (watermark_effect env (s\<lparr>angle := a\<rparr>))
        = Some (Some (composite (s\<lparr>angle := a\<rparr>) im))"
      using run[of "s\<lparr>angle := a\<rparr>"] assms d5 by simp
    moreover have "map op_position (cv_ops (composite (s\<lparr>angle := a\<rparr>) im))
        = map op_position (cv_ops (composite s im))"
      unfolding composite_positions by simp
    ultimately show ?thesis by blast
  qed
  ultimately show ?thesis by blast
qed

theorem spacing_and_density_witness:
  "\<exists>out out'.
      spacing_of 2 1 3 = Num (6004799503160661 / 9007199254740992)
    \<and> spacing_of 2 1 5 = Num (3602879701896397 / 9007199254740992)
    \<and> map_option canvasRef (watermark_effect failing_encoder_browser text_sample)
        = Some (Some out)
    \<and> map_option canvasRef (watermark_effect failing_encoder_browser (text_sample\<lparr>density := 5\<rparr>))
        = Some (Some out')
    \<and> length (cv_ops out) = 51 \<and> length (cv_ops out') = 129"
proof -
  have h: "image_s text_sample = Some sample_base" "canvasRef text_sample = Some new_canvas"
    "0 < img_width sample_base" "0 < img_height sample_base"
    "signature text_sample \<noteq> [] \<or> signatureImage text_sample \<noteq> None"
    "0 < density text_sample" "density text_sample < 5" "(5::int) \<le> 5"
    by (simp_all add: text_sample_def initial_state_def sample_base_def)
  obtain sp sp' out out' where
    "map_option canvasRef (watermark_effect failing_encoder_browser text_sample) = Some (Some out)"
    "map_option canvasRef (watermark_effect failing_encoder_browser (text_sample\<lparr>density := 5\<rparr>))
        = Some (Some out')"
    using spacing_and_density[OF h, of failing_encoder_browser] by blast
  note outs = this
  have run: "map_option canvasRef (watermark_effect failing_encoder_browser text_sample)
      = Some (Some (composite text_sample sample_base))"
    "map_option canvasRef (watermark_effect failing_encoder_browser (text_sample\<lparr>density := 5\<rparr>))
      = Some (Some (composite (text_sample\<lparr>density := 5\<rparr>) sample_base))"
    using watermark_effect_runs[of text_sample sample_base new_canvas failing_encoder_browser]
      watermark_effect_runs[of "text_sample\<lparr>density := 5\<rparr>" sample_base new_canvas
        failing_encoder_browser] h
    by simp_all
  have eqs: "out = composite text_sample sample_base"
    "out' = composite (text_sample\<lparr>density := 5\<rparr>) sample_base"
    using outs run by simp_all
  have v: "signature text_sample \<noteq> []" "signatureImage text_sample = None"
    "img_width sample_base = 2" "img_height sample_base = 1" "density text_sample = 3"
    by (simp_all add: text_sample_def initial_state_def sample_base_def)
  have "length (cv_ops out) = 51"
    unfolding eqs composite_length using v sample_tile_count by simp
  moreover have "length (cv_ops out') = 129"
    unfolding eqs composite_length using v dense_tile_count by simp
  moreover have "spacing_of 2 1 3 = Num (6004799503160661 / 9007199254740992)"
    "spacing_of 2 1 5 = Num (3602879701896397 / 9007199254740992)"
    using spacing_of_eq[of 3 2 1] spacing_of_eq[of 5 2 1]
    unfolding sample_spacing dense_spacing by simp_all
  ultimately show ?thesis using outs by blast
qed

section \<open>Clearing the signature\<close>

text \<open>
  C10, as the code has it. Clearing the last signature input, the text when there is no
  raster signature or the raster signature when there is no text, keeps the base image and
  leaves the stored result and the pending callbacks as they were: the effect that follows
  returns at its guard and schedules nothing. When no callback is pending, the result then
  stays as it is. But the effect returns no cleanup, so a callback scheduled before the
  clearing is not cancelled: when its timer fires it stores the composite of the inputs it
  captured, in place of the result that was stored.
\<close>

theorem clearing_leaves_result_to_pending_timers:
  assumes "e = SetSignature [] \<and> signatureImage (ui ts) = None
         \<or> e = RemoveSignatureImage \<and> signature (ui ts) = []"
  shows "\<exists>ts'. timed_step env (User e) ts = Some ts'
      \<and> inputs_empty ts' \<and> image_s (ui ts') = image_s (ui ts)
      \<and> stored_result ts' = stored_result ts \<and> pending ts' = pending ts
      \<and> (pending ts = [] \<longrightarrow> timed_step env Timer ts' = Some ts')
      \<and> (\<forall>captured rest im cv.
            pending ts = captured # rest \<and> image_s captured = Some im
            \<and> canvasRef (ui ts) = Some cv
            \<and> 0 < density captured \<and> density captured \<le> 5
            \<and> 0 < img_width im \<and> 0 < img_height im
            \<longrightarrow> map_option stored_result (timed_step env Timer ts')
                  = Some (Some (toDataURL env (composite captured im))))"
proof -
  define ts' where "ts' = \<lparr>ui = handle e (ui ts), pending = pending ts\<rparr>"
  have a: "signature (handle e (ui ts)) = []" and b: "signatureImage (handle e (ui ts)) = None"
    using assms by auto
  have "\<not> effect_scheduled (handle e (ui ts))"
    by (simp add: effect_scheduled_def a b)
  then have step: "timed_step env (User e) ts = Some ts'"
    by (simp add: timed_step_def ts'_def Let_def)
  have keep: "image_s (ui ts') = image_s (ui ts)" "stored_result ts' = stored_result ts"
    "pending ts' = pending ts" "canvasRef (ui ts') = canvasRef (ui ts)"
    using assms by (auto simp: ts'_def stored_result_def)
  have empty: "inputs_empty ts'"
    by (simp add: inputs_empty_def ts'_def a b)
  have quiet: "timed_step env Timer ts' = Some ts'" if "pending ts = []"
    using that by (simp add: timed_step_def ts'_def)
  have fires: "map_option stored_result (timed_step env Timer ts')
      = Some (Some (toDataURL env (composite captured im)))"
    if "pending ts = captured # rest" "image_s captured = Some im" "canvasRef (ui ts) = Some cv"
      "0 < density captured" "density captured \<le> 5" "0 < img_width im" "0 < img_height im"
    for captured rest im cv
  proof -
    have "timer_callback env captured (ui ts') =
        Some ((ui ts')\<lparr>canvasRef := Some (composite captured im),
                   watermarkedImage := Some (toDataURL env (composite captured im)),
                   isProcessing := False\<rparr>)"
      using that keep(4) by (intro timer_callback_runs[where cv = cv]) simp_all
    then show ?thesis
      using that(1) by (simp add: timed_step_def ts'_def stored_result_def)
  qed
  show ?thesis
    using step keep(1-3) empty quiet fires by blast
qed

theorem clearing_leaves_result_to_pending_timers_witness:
  "(\<exists>ts'. timed_step failing_encoder_browser (User (SetSignature [])) busy_sample = Some ts'
      \<and> inputs_empty ts' \<and> stored_result ts' = Some ''data:image/png;earlier''
      \<and> map_option stored_result (timed_step failing_encoder_browser Timer ts')
          = Some (Some (toDataURL failing_encoder_browser (composite typed_ab sample_base))))
   \<and> (\<exists>ts'. timed_step failing_encoder_browser (User (SetSignature []))
               \<lparr>ui = stale_sample, pending = []\<rparr> = Some ts'
      \<and> inputs_empty ts' \<and> stored_result ts' = Some ''data:image/png;earlier''
      \<and> timed_step failing_encoder_browser Timer ts' = Some ts')"
proof -
  have h: "SetSignature [] = SetSignature [] \<and> signatureImage (ui busy_sample) = None
         \<or> SetSignature [] = RemoveSignatureImage \<and> signature (ui busy_sample) = []"
    by (simp add: busy_sample_def stale_sample_def text_sample_def initial_state_def)
  have p: "pending busy_sample = typed_ab # [] \<and> image_s typed_ab = Some sample_base
      \<and> canvasRef (ui busy_sample)
          = Some (ctx_fillText ''old'' (Num 5) (Num 5) (ctx_rotate 1 new_canvas))
      \<and> 0 < density typed_ab \<and> density typed_ab \<le> 5
      \<and> 0 < img_width sample_base \<and> 0 < img_height sample_base"
    by (simp add: busy_sample_def stale_sample_def typed_ab_def initial_state_def sample_base_def)
  have st: "stored_result busy_sample = Some ''data:image/png;earlier''"
    by (simp add: stored_result_def busy_sample_def stale_sample_def)
  define idle where "idle = \<lparr>ui = stale_sample, pending = []\<rparr>"
  have hi: "SetSignature [] = SetSignature [] \<and> signatureImage (ui idle) = None
         \<or> SetSignature [] = RemoveSignatureImage \<and> signature (ui idle) = []"
    by (simp add: idle_def stale_sample_def text_sample_def initial_state_def)
  have pi: "pending idle = []" "stored_result idle = Some ''data:image/png;earlier''"
    by (simp_all add: idle_def stored_result_def stale_sample_def)
  have "\<exists>ts'. timed_step failing_encoder_browser (User (SetSignature [])) busy_sample = Some ts'
      \<and> inputs_empty ts' \<and> stored_result ts' = Some ''data:image/png;earlier''
      \<and> map_option stored_result (timed_step failing_encoder_browser Timer ts')
          = Some (Some (toDataURL failing_encoder_browser (composite typed_ab sample_base)))"
    using clearing_leaves_result_to_pending_timers[OF h, of failing_encoder_browser] p st
    by metis
  moreover have "\<exists>ts'. timed_step failing_encoder_browser (User (SetSignature [])) idle = Some ts'
      \<and> inputs_empty ts' \<and> stored_result ts' = Some ''data:image/png;earlier''
      \<and> timed_step failing_encoder_browser Timer ts' = Some ts'"
    using clearing_leaves_result_to_pending_timers[OF hi, of failing_encoder_browser] pi
    by metis
  ultimately show ?thesis unfolding idle_def by blast
qed

text \<open>
  A text is typed and composited, a second text is typed, and the text is cleared before
  the timer of the second fires. Right after the clearing the stored result is the first
  composite; once the timer has fired, with both inputs still empty, it is the second.
\<close>

theorem clearing_counterexample:
  "map_option inputs_empty (timed_run failing_encoder_browser typing_then_clearing mounted)
     = Some True
   \<and> map_option stored_result (timed_run failing_encoder_browser typing_then_clearing mounted)
     = Some (Some (toDataURL failing_encoder_browser (composite typed_a sample_base)))
   \<and> map_option inputs_empty
       (timed_run failing_encoder_browser (typing_then_clearing @ [Timer]) mounted)
     = Some True
   \<and> map_option stored_result
       (timed_run failing_encoder_browser (typing_then_clearing @ [Timer]) mounted)
     = Some (Some (toDataURL failing_encoder_browser (composite typed_ab sample_base)))
   \<and> toDataURL failing_encoder_browser (composite typed_a sample_base)
     \<noteq> toDataURL failing_encoder_browser (composite typed_ab sample_base)"
proof -
  let ?env = failing_encoder_browser
  define s1 where "s1 = initial_state\<lparr>image_s := Some sample_base\<rparr>"
  define s3 where "s3 = typed_a\<lparr>canvasRef := Some (composite typed_a sample_base),
      watermarkedImage := Some (toDataURL ?env (composite typed_a sample_base)),
      isProcessing := False\<rparr>"
  define s4 where "s4 = s3\<lparr>signature := ''ab''\<rparr>"
  define s5 where "s5 = s4\<lparr>isProcessing := True, signature := []\<rparr>"
  define s6 where "s6 = s5\<lparr>canvasRef := Some (composite typed_ab sample_base),
      watermarkedImage := Some (toDataURL ?env (composite typed_ab sample_base)),
      isProcessing := False\<rparr>"
  have step1: "timed_step ?env (User (SetImage sample_base)) mounted = Some \<lparr>ui = s1, pending = []\<rparr>"
    by (simp add: timed_step_def mounted_def s1_def Let_def effect_scheduled_def initial_state_def)
  have step2: "timed_step ?env (User (SetSignature ''a'')) \<lparr>ui = s1, pending = []\<rparr>
      = Some \<lparr>ui = typed_a\<lparr>isProcessing := True\<rparr>, pending = [typed_a]\<rparr>"
    by (simp add: timed_step_def s1_def typed_a_def Let_def effect_scheduled_def deps_changed_def
        initial_state_def)
  have fire3: "timer_callback ?env typed_a (typed_a\<lparr>isProcessing := True\<rparr>) = Some s3"
    unfolding s3_def
    by (subst timer_callback_runs[where im = sample_base and cv = new_canvas])
       (simp_all add: typed_a_def initial_state_def sample_base_def)
  have step3: "timed_step ?env Timer \<lparr>ui = typed_a\<lparr>isProcessing := True\<rparr>, pending = [typed_a]\<rparr>
      = Some \<lparr>ui = s3, pending = []\<rparr>"
    by (simp add: timed_step_def fire3)
  have step4: "timed_step ?env (User (SetSignature ''ab'')) \<lparr>ui = s3, pending = []\<rparr>
      = Some \<lparr>ui = s4\<lparr>isProcessing := True\<rparr>, pending = [s4]\<rparr>"
    by (simp add: timed_step_def s4_def s3_def typed_a_def Let_def effect_scheduled_def
        deps_changed_def initial_state_def)
  have step5: "timed_step ?env (User (SetSignature [])) \<lparr>ui = s4\<lparr>isProcessing := True\<rparr>, pending = [s4]\<rparr>
      = Some \<lparr>ui = s5, pending = [s4]\<rparr>"
    by (simp add: timed_step_def s5_def s4_def s3_def typed_a_def Let_def effect_scheduled_def
        initial_state_def)
  have cong: "composite s4 sample_base = composite typed_ab sample_base"
    by (rule composite_cong)
       (simp_all add: s4_def s3_def typed_a_def typed_ab_def initial_state_def)
  have fire6: "timer_callback ?env s4 s5 = Some s6"
    unfolding s6_def cong[symmetric]
    by (subst timer_callback_runs[where im = sample_base and cv = "composite typed_a sample_base"])
       (simp_all add: s5_def s4_def s3_def typed_a_def initial_state_def sample_base_def)
  have step6: "timed_step ?env Timer \<lparr>ui = s5, pending = [s4]\<rparr> = Some \<lparr>ui = s6, pending = []\<rparr>"
    by (simp add: timed_step_def fire6)
  have cleared: "timed_run ?env typing_then_clearing mounted = Some \<lparr>ui = s5, pending = [s4]\<rparr>"
    by (simp add: typing_then_clearing_def step1 step2 step3 step4 step5)
  have fired: "timed_run ?env (typing_then_clearing @ [Timer]) mounted = Some \<lparr>ui = s6, pending = []\<rparr>"
    by (simp add: typing_then_clearing_def step1 step2 step3 step4 step5 step6)
  have "map_option inputs_empty (Some \<lparr>ui = s5, pending = [s4]\<rparr>) = Some True"
    "map_option stored_result (Some \<lparr>ui = s5, pending = [s4]\<rparr>)
       = Some (Some (toDataURL ?env (composite typed_a sample_base)))"
    "map_option inputs_empty (Some \<lparr>ui = s6, pending = []\<rparr>) = Some True"
    "map_option stored_result (Some \<lparr>ui = s6, pending = []\<rparr>)
       = Some (Some (toDataURL ?env (composite typed_ab sample_base)))"
    by (simp_all add: inputs_empty_def stored_result_def s6_def s5_def s4_def s3_def
        typed_a_def initial_state_def)
  then show ?thesis
    unfolding cleared fired using typed_urls_differ by blast
qed

end
